theory Spec2Isabelle
  imports Main "HOL-Library.AList"
begin

section \<open>Common vocabulary\<close>

text \<open>
  Worker ids are the numbers that Node's cluster module hands out; instants are
  milliseconds as returned by \<^verbatim>\<open>Date.now()\<close>. A logger call is recorded with its
  level and its message text; the structured metadata object is not modelled.
\<close>

type_synonym wid = nat
type_synonym instant = int

datatype level = Info | Warn | Error

text \<open>Decimal rendering of a template placeholder such as \<^verbatim>\<open>${worker.id}\<close>.\<close>

function show_nat :: "nat \<Rightarrow> string" where
  "show_nat n =
     (if n < 10 then [''0123456789'' ! n]
      else show_nat (n div 10) @ [''0123456789'' ! (n mod 10)])"
  by pat_completeness auto
termination
  by (relation "measure (\<lambda>n. n)") auto

declare show_nat.simps [simp del]

section \<open>The primary process (src/cluster.js)\<close>

subsection \<open>State\<close>

datatype signal = SIGTERM | SIGINT | SIGUSR2

fun signal_name :: "signal \<Rightarrow> string" where
  "signal_name SIGTERM = ''SIGTERM''"
| "signal_name SIGINT = ''SIGINT''"
| "signal_name SIGUSR2 = ''SIGUSR2''"

datatype wmessage = Heartbeat | LogMessage | OtherMessage

text \<open>
  What the primary process is told by the runtime: the events of the cluster module
  (\<^verbatim>\<open>exit\<close> with the exit code and the signal, either of which may be \<^verbatim>\<open>null\<close>;
  \<^verbatim>\<open>online\<close>, \<^verbatim>\<open>listening\<close>, \<^verbatim>\<open>disconnect\<close>, \<^verbatim>\<open>message\<close>) and the signals
  of the operating system.
\<close>

datatype pevent =
    WorkerExit wid "int option" "string option"
  | WorkerOnline wid
  | WorkerListening wid
  | WorkerDisconnect wid
  | WorkerMessage wid wmessage
  | Signalled signal

text \<open>
  Pending timers of the primary: the heartbeat watchdog of a worker
  (\<^verbatim>\<open>setInterval(..., 30000)\<close> in \<^verbatim>\<open>forkWorker\<close>), the shutdown poll
  (\<^verbatim>\<open>setInterval(..., 500)\<close>), the forced exit (\<^verbatim>\<open>setTimeout(..., shutdownTimeout)\<close>)
  and the pause of the rolling restart
  (\<^verbatim>\<open>setTimeout(() => restartNext(index + 1), 1000)\<close>, a closure over
  \<^verbatim>\<open>workerIds\<close> and \<^verbatim>\<open>index\<close>; the timer stores the index to call with).
\<close>

datatype ptimer =
    HeartbeatCheck wid
  | CheckInterval
  | ForceExit
  | RestartNextTimer "wid list" nat

text \<open>
  Listeners registered on one worker object: for \<^verbatim>\<open>exit\<close>, the watchdog cleanup of
  \<^verbatim>\<open>forkWorker\<close> and the continuation of the rolling restart (closure over
  \<^verbatim>\<open>workerIds\<close> and \<^verbatim>\<open>index\<close>); for \<^verbatim>\<open>listening\<close>, the rolling restart's
  callback on the new worker (closure over \<^verbatim>\<open>workerIds\<close>, \<^verbatim>\<open>index\<close> and the old
  \<^verbatim>\<open>worker\<close>).
\<close>

datatype exit_listener =
    ClearHeartbeat
  | RestartNextAfterExit "wid list" nat

type_synonym listening_listener = "wid list \<times> nat \<times> wid"

text \<open>What the primary does that is visible outside it, in the order it happens.\<close>

datatype obs =
    Observed instant pevent
  | Fired instant ptimer
  | Log level string
  | Fork wid
  | SendShutdown wid
  | Disconnect wid
  | Kill wid
  | ProcessExit int

text \<open>
  \<^verbatim>\<open>clusterState\<close> is the first three fields. The fields \<open>ids\<close> and \<open>workers\<close> are the
  part of Node's cluster module that the code reads: the counter from which
  \<^verbatim>\<open>cluster.fork()\<close> numbers a new worker (\<^verbatim>\<open>worker.id\<close>, never reused) and the keys
  of \<^verbatim>\<open>cluster.workers\<close>, the live workers in ascending order. \<open>lastHeartbeat\<close> holds the
  closure variable of that name for every worker made by \<^verbatim>\<open>forkWorker\<close>.
  \<open>SHUTDOWN_TIMEOUT_MS\<close> is \<^verbatim>\<open>parseInt(process.env.SHUTDOWN_TIMEOUT_MS, 10)\<close>, with
  \<open>None\<close> for \<^verbatim>\<open>NaN\<close>.
\<close>

record primary =
  isShuttingDown :: bool
  workerRestarts :: "(wid \<times> instant list) list"
  maxRestartsPerMinute :: nat
  ids :: nat
  workers :: "wid list"
  lastHeartbeat :: "(wid \<times> instant) list"
  timers :: "(instant \<times> ptimer) list"
  onListening :: "(wid \<times> listening_listener) list"
  onExit :: "(wid \<times> exit_listener) list"
  trace :: "obs list"
  exited :: "int option"
  clock :: instant
  SHUTDOWN_TIMEOUT_MS :: "int option"

definition emit :: "obs \<Rightarrow> primary \<Rightarrow> primary" where
  "emit x s = s\<lparr>trace := trace s @ [x]\<rparr>"

definition logger :: "level \<Rightarrow> string \<Rightarrow> primary \<Rightarrow> primary" where
  "logger l m s = emit (Log l m) s"

text \<open>
  Node clamps a timer's delay: a delay below 1 or above 2147483647 becomes 1.
\<close>

definition timer_delay :: "int \<Rightarrow> int" where
  "timer_delay d = (if d < 1 \<or> 2147483647 < d then 1 else d)"

definition set_timer :: "int \<Rightarrow> ptimer \<Rightarrow> primary \<Rightarrow> primary" where
  "set_timer d k s = s\<lparr>timers := timers s @ [(clock s + timer_delay d, k)]\<rparr>"

definition clear_timer :: "ptimer \<Rightarrow> primary \<Rightarrow> primary" where
  "clear_timer k s = s\<lparr>timers := filter (\<lambda>(due, k'). k' \<noteq> k) (timers s)\<rparr>"

subsection \<open>Forking\<close>

text \<open>\<^verbatim>\<open>cluster.fork()\<close>: the new worker takes the next id and joins
  \<^verbatim>\<open>cluster.workers\<close>.\<close>

definition cluster_fork :: "primary \<Rightarrow> wid \<times> primary" where
  "cluster_fork s =
     (let w = ids s + 1
      in (w, emit (Fork w) (s\<lparr>ids := w, workers := workers s @ [w]\<rparr>)))"

text \<open>
  \<^verbatim>\<open>forkWorker()\<close> takes no argument: it forks, starts the heartbeat bookkeeping of the
  new worker and registers the cleanup of the watchdog on the worker's exit.
\<close>

definition forkWorker :: "primary \<Rightarrow> wid \<times> primary" where
  "forkWorker s =
     (let (w, s1) = cluster_fork s;
          s2 = s1\<lparr>lastHeartbeat := AList.update w (clock s1) (lastHeartbeat s1)\<rparr>;
          s3 = set_timer 30000 (HeartbeatCheck w) s2;
          s4 = s3\<lparr>onExit := onExit s3 @ [(w, ClearHeartbeat)]\<rparr>
      in (w, s4))"

subsection \<open>The exit handler and the restart rate limit\<close>

text \<open>\<^verbatim>\<open>clusterState.workerRestarts.get(worker.id) || []\<close>\<close>

definition restarts_of :: "primary \<Rightarrow> wid \<Rightarrow> instant list" where
  "restarts_of s w = (case map_of (workerRestarts s) w of None \<Rightarrow> [] | Some r \<Rightarrow> r)"

text \<open>\<^verbatim>\<open>restarts.filter((time) => now - time < 60000)\<close>\<close>

definition recentRestarts :: "instant \<Rightarrow> instant list \<Rightarrow> instant list" where
  "recentRestarts now restarts = filter (\<lambda>time. now - time < 60000) restarts"

text \<open>
  \<^verbatim>\<open>cluster.on('exit', (worker, code, signal) => ...)\<close>; \<^verbatim>\<open>Date.now()\<close> is the clock
  of the state.
\<close>

definition on_exit :: "wid \<Rightarrow> int option \<Rightarrow> string option \<Rightarrow> primary \<Rightarrow> primary" where
  "on_exit w code sig s =
     (let s1 = logger Warn ''Worker died'' s
      in if isShuttingDown s1 then s1
         else
           let now = clock s1;
               recent = recentRestarts now (restarts_of s1 w)
           in if maxRestartsPerMinute s1 \<le> length recent
              then logger Error (''Worker '' @ show_nat w @ '' restarting too frequently, not restarting'') s1
              else
                let recent' = recent @ [now];
                    s2 = s1\<lparr>workerRestarts := AList.update w recent' (workerRestarts s1)\<rparr>;
                    s3 = logger Info ''Restarting worker'' s2
                in snd (forkWorker s3))"

subsection \<open>Shutdown of the cluster\<close>

text \<open>\<^verbatim>\<open>process.exit(code)\<close>: nothing of the process runs afterwards.\<close>

definition process_exit :: "int \<Rightarrow> primary \<Rightarrow> primary" where
  "process_exit c s = emit (ProcessExit c) (s\<lparr>exited := Some c\<rparr>)"

text \<open>\<^verbatim>\<open>parseInt(process.env.SHUTDOWN_TIMEOUT_MS, 10) || 30000\<close>: \<^verbatim>\<open>NaN\<close> and 0 are
  falsy.\<close>

definition shutdownTimeout :: "int option \<Rightarrow> int" where
  "shutdownTimeout v = (case v of None \<Rightarrow> 30000 | Some n \<Rightarrow> if n = 0 then 30000 else n)"

text \<open>
  \<^verbatim>\<open>gracefulShutdown(signal)\<close> of the primary, up to the point where it has armed the
  poll (every 500 ms) and the forced exit.
\<close>

definition gracefulShutdown :: "signal \<Rightarrow> primary \<Rightarrow> primary" where
  "gracefulShutdown sig s =
     (if isShuttingDown s then s
      else
        let s1 = s\<lparr>isShuttingDown := True\<rparr>;
            s2 = logger Info (''Primary received '' @ signal_name sig @ '', initiating graceful shutdown'') s1;
            s3 = fold (\<lambda>w. emit (SendShutdown w)) (workers s2) s2;
            s4 = set_timer 500 CheckInterval s3
        in set_timer (shutdownTimeout (SHUTDOWN_TIMEOUT_MS s4)) ForceExit s4)"

text \<open>The body of the poll: \<^verbatim>\<open>Object.keys(cluster.workers).length === 0\<close>.\<close>

definition checkInterval :: "primary \<Rightarrow> primary" where
  "checkInterval s =
     (if length (workers s) = 0
      then process_exit 0 (logger Info ''All workers exited, primary shutting down'' (clear_timer CheckInterval s))
      else set_timer 500 CheckInterval s)"

definition forceExit :: "primary \<Rightarrow> primary" where
  "forceExit s = process_exit 1 (logger Error ''Shutdown timeout reached, forcing exit'' s)"

subsection \<open>Heartbeat watchdog\<close>

definition heartbeatInterval :: "wid \<Rightarrow> primary \<Rightarrow> primary" where
  "heartbeatInterval w s =
     (let timeSinceHeartbeat = clock s - (case map_of (lastHeartbeat s) w of None \<Rightarrow> clock s | Some t \<Rightarrow> t);
          s1 = (if 60000 < timeSinceHeartbeat
                then emit (Kill w) (logger Error (''Worker '' @ show_nat w @ '' heartbeat timeout, killing'') s)
                else s)
      in set_timer 30000 (HeartbeatCheck w) s1)"

subsection \<open>Rolling restart\<close>

text \<open>
  \<^verbatim>\<open>restartNext(index)\<close>, a closure over \<^verbatim>\<open>workerIds\<close>. A worker that is no longer in
  \<^verbatim>\<open>cluster.workers\<close> is skipped. Otherwise a new worker is forked with
  \<^verbatim>\<open>cluster.fork()\<close> (not \<^verbatim>\<open>forkWorker\<close>) and the callback is registered on its
  \<^verbatim>\<open>listening\<close> event.
\<close>

function restartNext :: "wid list \<Rightarrow> nat \<Rightarrow> primary \<Rightarrow> primary" where
  "restartNext workerIds index s =
     (if length workerIds \<le> index then logger Info ''Rolling restart complete'' s
      else
        let w = workerIds ! index
        in if w \<notin> set (workers s) then restartNext workerIds (index + 1) s
           else
             let s1 = logger Info (''Restarting worker '' @ show_nat w) s;
                 (n, s2) = cluster_fork s1
             in s2\<lparr>onListening := onListening s2 @ [(n, (workerIds, index, w))]\<rparr>)"
  by pat_completeness auto
termination
  by (relation "measure (\<lambda>(workerIds, index, s). length workerIds - index)") auto

declare restartNext.simps [simp del]

text \<open>\<^verbatim>\<open>process.on('SIGUSR2', ...)\<close>\<close>

definition rollingRestart :: "primary \<Rightarrow> primary" where
  "rollingRestart s =
     (let s1 = logger Info ''Received SIGUSR2, performing rolling restart'' s
      in restartNext (workers s1) 0 s1)"

text \<open>The callback on the new worker's \<^verbatim>\<open>listening\<close>: disconnect the old worker and
  register the continuation on the old worker's \<^verbatim>\<open>exit\<close>.\<close>

definition newWorker_listening :: "listening_listener \<Rightarrow> primary \<Rightarrow> primary" where
  "newWorker_listening l s =
     (case l of (workerIds, index, w) \<Rightarrow>
        let s1 = emit (Disconnect w) s
        in s1\<lparr>onExit := onExit s1 @ [(w, RestartNextAfterExit workerIds index)]\<rparr>)"

text \<open>A listener on a worker's \<^verbatim>\<open>exit\<close>.\<close>

fun worker_exit_listener :: "wid \<Rightarrow> exit_listener \<Rightarrow> primary \<Rightarrow> primary" where
  "worker_exit_listener w ClearHeartbeat s = clear_timer (HeartbeatCheck w) s"
| "worker_exit_listener w (RestartNextAfterExit workerIds index) s =
     set_timer 1000 (RestartNextTimer workerIds (index + 1)) s"

subsection \<open>Dispatch of events and timers\<close>

text \<open>
  An event of a worker reaches the listeners registered on the worker object first, in
  the order of registration, and the listener registered on \<^verbatim>\<open>cluster\<close> afterwards.
  When a worker process has exited, the cluster module takes it out of
  \<^verbatim>\<open>cluster.workers\<close>.
\<close>

definition listeners_for :: "wid \<Rightarrow> (wid \<times> 'a) list \<Rightarrow> 'a list" where
  "listeners_for w ls = map snd (filter (\<lambda>(w', l). w' = w) ls)"

fun dispatch :: "pevent \<Rightarrow> primary \<Rightarrow> primary" where
  "dispatch (WorkerExit w code sig) s =
     (let s1 = s\<lparr>workers := filter (\<lambda>w'. w' \<noteq> w) (workers s)\<rparr>;
          s2 = fold (worker_exit_listener w) (listeners_for w (onExit s1)) s1
      in on_exit w code sig s2)"
| "dispatch (WorkerOnline w) s = logger Info ''Worker online'' s"
| "dispatch (WorkerListening w) s =
     (let s1 = fold newWorker_listening (listeners_for w (onListening s)) s
      in logger Info ''Worker listening'' s1)"
| "dispatch (WorkerDisconnect w) s = logger Warn ''Worker disconnected'' s"
| "dispatch (WorkerMessage w m) s =
     (let s1 = (if m = Heartbeat \<and> map_of (lastHeartbeat s) w \<noteq> None
                then s\<lparr>lastHeartbeat := AList.update w (clock s) (lastHeartbeat s)\<rparr> else s)
      in if m = LogMessage then logger Info (''Message from worker '' @ show_nat w) s1 else s1)"
| "dispatch (Signalled SIGTERM) s = gracefulShutdown SIGTERM s"
| "dispatch (Signalled SIGINT) s = gracefulShutdown SIGINT s"
| "dispatch (Signalled SIGUSR2) s = rollingRestart s"

fun run_timer :: "ptimer \<Rightarrow> primary \<Rightarrow> primary" where
  "run_timer (HeartbeatCheck w) s = heartbeatInterval w s"
| "run_timer CheckInterval s = checkInterval s"
| "run_timer ForceExit s = forceExit s"
| "run_timer (RestartNextTimer workerIds index) s = restartNext workerIds index s"

text \<open>The timer that fires next: the earliest one, and among equals the one set first.\<close>

fun next_timer :: "(instant \<times> 'k) list \<Rightarrow> (instant \<times> 'k) option" where
  "next_timer [] = None"
| "next_timer (x # xs) =
     (case next_timer xs of
        None \<Rightarrow> Some x
      | Some y \<Rightarrow> if fst y < fst x then Some y else Some x)"

text \<open>
  A step of the primary is an event at an instant, or the firing of the next timer at the
  instant it is due. A process that has exited does nothing.
\<close>

datatype plabel = Env instant pevent | Tick

fun primary_step :: "primary \<Rightarrow> plabel \<Rightarrow> primary" where
  "primary_step s (Env t e) =
     (if exited s \<noteq> None then s
      else dispatch e (emit (Observed t e) (s\<lparr>clock := t\<rparr>)))"
| "primary_step s Tick =
     (if exited s \<noteq> None then s
      else case next_timer (timers s) of
             None \<Rightarrow> s
           | Some (due, k) \<Rightarrow>
               run_timer k (emit (Fired due k) (s\<lparr>clock := due, timers := remove1 (due, k) (timers s)\<rparr>)))"

definition primary_run :: "primary \<Rightarrow> plabel list \<Rightarrow> primary" where
  "primary_run s ls = foldl primary_step s ls"



subsection \<open>Start of the primary\<close>

text \<open>\<^verbatim>\<open>parseInt(process.env.CLUSTER_WORKERS, 10) || os.cpus().length\<close>\<close>

definition numWorkers :: "int option \<Rightarrow> nat \<Rightarrow> int" where
  "numWorkers v cpus = (case v of None \<Rightarrow> int cpus | Some n \<Rightarrow> if n = 0 then int cpus else n)"

definition primary_boot :: "instant \<Rightarrow> int option \<Rightarrow> primary" where
  "primary_boot t0 timeout_env =
     \<lparr> isShuttingDown = False, workerRestarts = [], maxRestartsPerMinute = 5,
       ids = 0, workers = [], lastHeartbeat = [], timers = [], onListening = [],
       onExit = [], trace = [], exited = None, clock = t0,
       SHUTDOWN_TIMEOUT_MS = timeout_env \<rparr>"

text \<open>\<^verbatim>\<open>for (let i = 0; i < numWorkers; i++) forkWorker();\<close>\<close>

definition primary_start :: "instant \<Rightarrow> int option \<Rightarrow> int \<Rightarrow> primary" where
  "primary_start t0 timeout_env n =
     ((\<lambda>s. snd (forkWorker s)) ^^ (nat n))
       (logger Info ''Primary process started'' (primary_boot t0 timeout_env))"

subsection \<open>The restart-rate governor as the specification words it\<close>

text \<open>
  The specification's governor: prune the instants older than the window, then allow a
  respawn iff fewer than the maximum remain. An instant is older than the window when its
  age exceeds the window.
\<close>

definition spec_prune :: "int \<Rightarrow> instant \<Rightarrow> instant list \<Rightarrow> instant list" where
  "spec_prune window now history = filter (\<lambda>time. \<not> window < now - time) history"

definition spec_allows :: "int \<Rightarrow> nat \<Rightarrow> instant \<Rightarrow> instant list \<Rightarrow> bool" where
  "spec_allows window maxRestarts now history = (length (spec_prune window now history) < maxRestarts)"

text \<open>Crash-exits of one worker id at the given instants, each handled by the exit
  handler.\<close>

definition crash_exits :: "wid \<Rightarrow> instant list \<Rightarrow> primary \<Rightarrow> primary" where
  "crash_exits w ts s = foldl (\<lambda>s t. on_exit w (Some 1) None (s\<lparr>clock := t\<rparr>)) s ts"

text \<open>A primary at instant 60000 after five crash-exits of worker id 1 at instant 0, each
  followed by a respawn.\<close>

definition boundary_state :: primary where
  "boundary_state = (crash_exits 1 [0, 0, 0, 0, 0] (primary_start 0 None 1))\<lparr>clock := 60000\<rparr>"

text \<open>
  One worker slot that keeps crashing: worker 1 exits at 1000 ms, and each replacement
  (workers 2 to 6, numbered by \<^verbatim>\<open>cluster.fork()\<close>) exits one second after the one
  before.
\<close>

definition slot_crashes :: "plabel list" where
  "slot_crashes =
     [Env 1000 (WorkerExit 1 (Some 1) None), Env 2000 (WorkerExit 2 (Some 1) None),
      Env 3000 (WorkerExit 3 (Some 1) None), Env 4000 (WorkerExit 4 (Some 1) None),
      Env 5000 (WorkerExit 5 (Some 1) None), Env 6000 (WorkerExit 6 (Some 1) None)]"

section \<open>The worker process (src/server.js, src/routes/healthRoutes.js)\<close>

subsection \<open>State\<close>

type_synonym conn = nat

text \<open>
  One reading of \<^verbatim>\<open>process.memoryUsage()\<close> and of the event-loop lag measured by
  \<^verbatim>\<open>runHealthChecks\<close>.
\<close>

record sample =
  heapUsed :: nat
  heapTotal :: nat
  eventLoopLag :: int

text \<open>An HTTP response: status code, the \<^verbatim>\<open>status\<close> field of the body and the
  \<^verbatim>\<open>checks\<close> field when the body has one.\<close>

datatype response = Response nat string "(string \<times> string) list option"

fun status_code :: "response \<Rightarrow> nat" where
  "status_code (Response c b d) = c"

fun check_details :: "response \<Rightarrow> (string \<times> string) list option" where
  "check_details (Response c b d) = d"

datatype wevent =
    Listening
  | ServerError string
  | Connection conn
  | ConnectionClose conn
  | Sigterm
  | Sigint
  | ShutdownMessage
  | UncaughtException
  | GetReady sample
  | GetHealth sample
  | GetLive

text \<open>
  Pending timers of the worker: the drain delay awaited by \<^verbatim>\<open>gracefulShutdown\<close>
  (with \<open>True\<close> when the caller is the \<^verbatim>\<open>uncaughtException\<close> handler, which exits
  with status 1 once \<^verbatim>\<open>gracefulShutdown\<close> has returned), the force-shutdown timer,
  the destroy timer of one connection and the poll of the connection set.
\<close>

datatype wtimer =
    DrainDelay bool
  | ForceShutdownTimer
  | DestroyTimer conn
  | CheckConnections

datatype wobs =
    WObserved instant wevent
  | WFired instant wtimer
  | WLog level string
  | ServerClose
  | ConnEnd conn
  | ConnDestroy conn
  | Respond response
  | WExit int

text \<open>
  \<open>server_isShuttingDown\<close> and \<open>server_connections\<close> are \<^verbatim>\<open>serverState\<close> (the set in
  insertion order); \<open>health_isReady\<close>, \<open>health_isHealthy\<close> and \<open>health_checks\<close> (the status
  of each named check) are \<^verbatim>\<open>healthState\<close>. \<open>server_listening\<close> tells whether the HTTP
  server accepts connections. \<open>DRAIN_DELAY_MS\<close> and \<open>WORKER_SHUTDOWN_TIMEOUT_MS\<close> are
  \<^verbatim>\<open>parseInt\<close> of the environment variables \<^verbatim>\<open>DRAIN_DELAY_MS\<close> and
  \<^verbatim>\<open>SHUTDOWN_TIMEOUT_MS\<close>, with \<open>None\<close> for \<^verbatim>\<open>NaN\<close>.
\<close>

record worker =
  server_isShuttingDown :: bool
  server_connections :: "conn list"
  server_listening :: bool
  health_isReady :: bool
  health_isHealthy :: bool
  health_checks :: "(string \<times> string) list"
  wtimers :: "(instant \<times> wtimer) list"
  wtrace :: "wobs list"
  wexited :: "int option"
  wclock :: instant
  DRAIN_DELAY_MS :: "int option"
  WORKER_SHUTDOWN_TIMEOUT_MS :: "int option"

definition wemit :: "wobs \<Rightarrow> worker \<Rightarrow> worker" where
  "wemit x s = s\<lparr>wtrace := wtrace s @ [x]\<rparr>"

definition wlogger :: "level \<Rightarrow> string \<Rightarrow> worker \<Rightarrow> worker" where
  "wlogger l m s = wemit (WLog l m) s"

definition wset_timer :: "int \<Rightarrow> wtimer \<Rightarrow> worker \<Rightarrow> worker" where
  "wset_timer d k s = s\<lparr>wtimers := wtimers s @ [(wclock s + timer_delay d, k)]\<rparr>"

definition wclear_timer :: "wtimer \<Rightarrow> worker \<Rightarrow> worker" where
  "wclear_timer k s = s\<lparr>wtimers := filter (\<lambda>(due, k'). k' \<noteq> k) (wtimers s)\<rparr>"

definition wprocess_exit :: "int \<Rightarrow> worker \<Rightarrow> worker" where
  "wprocess_exit c s = wemit (WExit c) (s\<lparr>wexited := Some c\<rparr>)"

definition show_int :: "int \<Rightarrow> string" where
  "show_int i = (if i < 0 then ''-'' @ show_nat (nat (- i)) else show_nat (nat i))"

subsection \<open>Health state and probes\<close>

definition markReady :: "worker \<Rightarrow> worker" where
  "markReady s = wlogger Info ''Application marked as ready'' (s\<lparr>health_isReady := True\<rparr>)"

definition markNotReady :: "worker \<Rightarrow> worker" where
  "markNotReady s = wlogger Warn ''Application marked as not ready'' (s\<lparr>health_isReady := False\<rparr>)"

definition updateHealthCheck :: "string \<Rightarrow> string \<Rightarrow> worker \<Rightarrow> worker" where
  "updateHealthCheck checkName status s =
     s\<lparr>health_checks := AList.update checkName status (health_checks s)\<rparr>"

definition MEMORY_THRESHOLD_PERCENT :: nat where
  "MEMORY_THRESHOLD_PERCENT = 90"

definition EVENT_LOOP_LAG_THRESHOLD_MS :: int where
  "EVENT_LOOP_LAG_THRESHOLD_MS = 500"

text \<open>
  \<^verbatim>\<open>(heapUsed / heapTotal) * 100 < MEMORY_THRESHOLD_PERCENT\<close>, compared exactly (the
  rounding of the floating-point quotient is left out); with \<^verbatim>\<open>heapTotal\<close> zero the
  quotient is \<^verbatim>\<open>Infinity\<close> or \<^verbatim>\<open>NaN\<close> and the comparison is false.
\<close>

definition memoryHealthy :: "sample \<Rightarrow> bool" where
  "memoryHealthy m = (heapUsed m * 100 < MEMORY_THRESHOLD_PERCENT * heapTotal m)"

definition eventLoopHealthy :: "sample \<Rightarrow> bool" where
  "eventLoopHealthy m = (eventLoopLag m < EVENT_LOOP_LAG_THRESHOLD_MS)"

definition health_word :: "bool \<Rightarrow> string" where
  "health_word b = (if b then ''healthy'' else ''unhealthy'')"

text \<open>\<^verbatim>\<open>runHealthChecks()\<close>: the three checks in the order the object is built, each
  stored with \<^verbatim>\<open>updateHealthCheck\<close>, then the aggregate.\<close>

definition runHealthChecks :: "sample \<Rightarrow> worker \<Rightarrow> (string \<times> string) list \<times> worker" where
  "runHealthChecks m s =
     (let memory = health_word (memoryHealthy m);
          s1 = updateHealthCheck ''memory'' memory s;
          eventLoop = health_word (eventLoopHealthy m);
          s2 = updateHealthCheck ''eventLoop'' eventLoop s1;
          database = ''healthy'';
          s3 = updateHealthCheck ''database'' database s2;
          checks = [(''memory'', memory), (''eventLoop'', eventLoop), (''database'', database)];
          allHealthy = list_all (\<lambda>(name, status). status = ''healthy'') checks
      in (checks, s3\<lparr>health_isHealthy := allHealthy\<rparr>))"

text \<open>\<^verbatim>\<open>router.get('/ready', ...)\<close>\<close>

definition get_ready :: "sample \<Rightarrow> worker \<Rightarrow> response \<times> worker" where
  "get_ready m s =
     (if \<not> health_isReady s then (Response 503 ''not_ready'' None, s)
      else
        let (checks, s1) = runHealthChecks m s
        in (Response (if health_isHealthy s1 then 200 else 503)
                     (if health_isHealthy s1 then ''ready'' else ''not_ready'')
                     (Some checks), s1))"

text \<open>\<^verbatim>\<open>router.get('/', ...)\<close>\<close>

definition get_health :: "sample \<Rightarrow> worker \<Rightarrow> response \<times> worker" where
  "get_health m s =
     (let (checks, s1) = runHealthChecks m s;
          isHealthy = health_isHealthy s1
      in (Response (if isHealthy then 200 else 503)
                   (if isHealthy then ''healthy'' else ''unhealthy'') None, s1))"

text \<open>\<^verbatim>\<open>router.get('/live', ...)\<close>\<close>

definition get_live :: "worker \<Rightarrow> response \<times> worker" where
  "get_live s = (Response 200 ''alive'' None, s)"

subsection \<open>Graceful shutdown of the worker\<close>

text \<open>\<^verbatim>\<open>parseInt(process.env.DRAIN_DELAY_MS, 10) || 5000\<close>\<close>

definition drainDelay :: "int option \<Rightarrow> int" where
  "drainDelay v = (case v of None \<Rightarrow> 5000 | Some n \<Rightarrow> if n = 0 then 5000 else n)"

text \<open>
  \<^verbatim>\<open>gracefulShutdown(signal)\<close> up to its \<^verbatim>\<open>await\<close>; the rest of the function runs
  when the drain-delay timer fires. \<open>then_exit\<close> is \<open>True\<close> for the call made by the
  \<^verbatim>\<open>uncaughtException\<close> handler.
\<close>

definition server_gracefulShutdown :: "string \<Rightarrow> bool \<Rightarrow> worker \<Rightarrow> worker" where
  "server_gracefulShutdown sig then_exit s =
     (if server_isShuttingDown s
      then
        let s1 = wlogger Warn ''Shutdown already in progress, ignoring signal'' s
        in if then_exit then wprocess_exit 1 s1 else s1
      else
        let s1 = s\<lparr>server_isShuttingDown := True\<rparr>;
            s2 = wlogger Info (''Received '' @ sig @ '', starting graceful shutdown...'') s1;
            s3 = markNotReady s2;
            d = drainDelay (DRAIN_DELAY_MS s3);
            s4 = wlogger Info (''Waiting '' @ show_int d @ ''ms for load balancer drain...'') s3
        in wset_timer d (DrainDelay then_exit) s4)"

text \<open>One turn of \<^verbatim>\<open>for (const connection of serverState.connections)\<close>.\<close>

definition end_connection :: "conn \<Rightarrow> worker \<Rightarrow> worker" where
  "end_connection c s = wset_timer 5000 (DestroyTimer c) (wemit (ConnEnd c) s)"

text \<open>
  The part of \<^verbatim>\<open>gracefulShutdown\<close> after the drain delay. The callback of
  \<^verbatim>\<open>server.close\<close> only logs and is left out.
\<close>

definition after_drain :: "bool \<Rightarrow> worker \<Rightarrow> worker" where
  "after_drain then_exit s =
     (let s1 = wemit ServerClose (s\<lparr>server_listening := False\<rparr>);
          s2 = wset_timer (shutdownTimeout (WORKER_SHUTDOWN_TIMEOUT_MS s1)) ForceShutdownTimer s1;
          s3 = fold end_connection (server_connections s2) s2;
          s4 = wset_timer 100 CheckConnections s3
      in if then_exit then wprocess_exit 1 s4 else s4)"

definition forceShutdownTimer :: "worker \<Rightarrow> worker" where
  "forceShutdownTimer s = wprocess_exit 1 (wlogger Error ''Forced shutdown due to timeout'' s)"

text \<open>
  The destroy timer of a connection. A connection that has closed is no longer tracked
  and has \<^verbatim>\<open>destroyed\<close> set; destroying a tracked connection closes it, and its
  \<^verbatim>\<open>close\<close> listener takes it out of the set.
\<close>

definition destroyTimer :: "conn \<Rightarrow> worker \<Rightarrow> worker" where
  "destroyTimer c s =
     (if c \<in> set (server_connections s)
      then (wemit (ConnDestroy c) s)\<lparr>server_connections := filter (\<lambda>c'. c' \<noteq> c) (server_connections s)\<rparr>
      else s)"

definition checkConnections :: "worker \<Rightarrow> worker" where
  "checkConnections s =
     (if length (server_connections s) = 0
      then wprocess_exit 0 (wlogger Info ''All connections closed, shutting down''
             (wclear_timer ForceShutdownTimer (wclear_timer CheckConnections s)))
      else wset_timer 100 CheckConnections s)"

subsection \<open>Events and timers of the worker\<close>

text \<open>
  The handlers of \<^verbatim>\<open>src/server.js\<close> and the worker branch of \<^verbatim>\<open>src/cluster.js\<close>. The
  log lines are given without the worker id and the port that the source interpolates.
\<close>

definition uncaughtException :: "worker \<Rightarrow> worker" where
  "uncaughtException s =
     server_gracefulShutdown ''uncaughtException'' True (wlogger Error ''Uncaught Exception'' s)"

fun wdispatch :: "wevent \<Rightarrow> worker \<Rightarrow> worker" where
  "wdispatch Listening s =
     markReady (wlogger Info ''Server started successfully'' (s\<lparr>server_listening := True\<rparr>))"
| "wdispatch (ServerError code) s =
     (if code = ''EADDRINUSE''
      then wprocess_exit 1 (wlogger Error ''Port is already in use'' s)
      else uncaughtException s)"
| "wdispatch (Connection c) s =
     (if server_listening s \<and> c \<notin> set (server_connections s)
      then s\<lparr>server_connections := server_connections s @ [c]\<rparr> else s)"
| "wdispatch (ConnectionClose c) s =
     s\<lparr>server_connections := filter (\<lambda>c'. c' \<noteq> c) (server_connections s)\<rparr>"
| "wdispatch Sigterm s = server_gracefulShutdown ''SIGTERM'' False s"
| "wdispatch Sigint s = server_gracefulShutdown ''SIGINT'' False s"
| "wdispatch ShutdownMessage s =
     server_gracefulShutdown ''SIGTERM'' False (wlogger Info ''Worker received shutdown signal'' s)"
| "wdispatch UncaughtException s = uncaughtException s"
| "wdispatch (GetReady m) s = (let (r, s1) = get_ready m s in wemit (Respond r) s1)"
| "wdispatch (GetHealth m) s = (let (r, s1) = get_health m s in wemit (Respond r) s1)"
| "wdispatch GetLive s = (let (r, s1) = get_live s in wemit (Respond r) s1)"

fun wrun_timer :: "wtimer \<Rightarrow> worker \<Rightarrow> worker" where
  "wrun_timer (DrainDelay then_exit) s = after_drain then_exit s"
| "wrun_timer ForceShutdownTimer s = forceShutdownTimer s"
| "wrun_timer (DestroyTimer c) s = destroyTimer c s"
| "wrun_timer CheckConnections s = checkConnections s"

datatype wlabel = WEnv instant wevent | WTick

fun worker_step :: "worker \<Rightarrow> wlabel \<Rightarrow> worker" where
  "worker_step s (WEnv t e) =
     (if wexited s \<noteq> None then s
      else wdispatch e (wemit (WObserved t e) (s\<lparr>wclock := t\<rparr>)))"
| "worker_step s WTick =
     (if wexited s \<noteq> None then s
      else case next_timer (wtimers s) of
             None \<Rightarrow> s
           | Some (due, k) \<Rightarrow>
               wrun_timer k (wemit (WFired due k) (s\<lparr>wclock := due, wtimers := remove1 (due, k) (wtimers s)\<rparr>)))"

definition worker_run :: "worker \<Rightarrow> wlabel list \<Rightarrow> worker" where
  "worker_run s ls = foldl worker_step s ls"

fun wlabel_ok :: "worker \<Rightarrow> wlabel \<Rightarrow> bool" where
  "wlabel_ok s (WEnv t e) = (wclock s \<le> t \<and> list_all (\<lambda>(due, k). t \<le> due) (wtimers s))"
| "wlabel_ok s WTick = (wtimers s \<noteq> [])"

fun wrun_ok :: "worker \<Rightarrow> wlabel list \<Rightarrow> bool" where
  "wrun_ok s [] = True"
| "wrun_ok s (l # ls) = (wlabel_ok s l \<and> wrun_ok (worker_step s l) ls)"

text \<open>The worker when the module has been loaded: \<^verbatim>\<open>healthState\<close> and
  \<^verbatim>\<open>serverState\<close> as initialised.\<close>

definition worker_boot :: "instant \<Rightarrow> int option \<Rightarrow> int option \<Rightarrow> worker" where
  "worker_boot t0 drain_env timeout_env =
     \<lparr> server_isShuttingDown = False, server_connections = [], server_listening = False,
       health_isReady = False, health_isHealthy = True,
       health_checks = [(''database'', ''unknown''), (''memory'', ''unknown''), (''eventLoop'', ''unknown'')],
       wtimers = [], wtrace = [], wexited = None, wclock = t0,
       DRAIN_DELAY_MS = drain_env, WORKER_SHUTDOWN_TIMEOUT_MS = timeout_env \<rparr>"

subsection \<open>The drain state machine read off the worker's state\<close>

text \<open>
  The specification's phases: running until a shutdown request, draining while the drain
  delay is pending, closing afterwards, terminated once the process has exited.
\<close>

datatype drain_phase = RUNNING | DRAINING | CLOSING | TERMINATED

fun is_drain_delay :: "instant \<times> wtimer \<Rightarrow> bool" where
  "is_drain_delay (due, DrainDelay then_exit) = True"
| "is_drain_delay (due, k) = False"

definition phase :: "worker \<Rightarrow> drain_phase" where
  "phase s =
     (if wexited s \<noteq> None then TERMINATED
      else if \<not> server_isShuttingDown s then RUNNING
      else if list_ex is_drain_delay (wtimers s) then DRAINING
      else CLOSING)"

text \<open>
  A worker that listens and has one open connection, with the given drain delay and
  shutdown timeout in its environment; and the run in which a termination signal arrives
  at instant 0 and, the connection never closing, only timers follow.
\<close>

definition one_connection_worker :: "int \<Rightarrow> int \<Rightarrow> worker" where
  "one_connection_worker drain timeout =
     worker_run (worker_boot (- 100) (Some drain) (Some timeout))
       [WEnv (- 20) Listening, WEnv (- 10) (Connection 1)]"

definition sigterm_then_ticks :: "nat \<Rightarrow> wlabel list" where
  "sigterm_then_ticks n = WEnv 0 Sigterm # replicate n WTick"

text \<open>The instant and the phase after each step of a run.\<close>

fun timeline :: "worker \<Rightarrow> wlabel list \<Rightarrow> (instant \<times> drain_phase) list" where
  "timeline s [] = []"
| "timeline s (l # ls) = (wclock (worker_step s l), phase (worker_step s l)) # timeline (worker_step s l) ls"

subsection \<open>Notions used to state the shutdown properties of the worker\<close>

text \<open>The observations in which the worker acts on a connection against its peer:
  the half-close and the destruction.\<close>

fun is_forced_close :: "wobs \<Rightarrow> bool" where
  "is_forced_close (ConnEnd c) = True"
| "is_forced_close (ConnDestroy c) = True"
| "is_forced_close x = False"

definition forced_count :: "wobs list \<Rightarrow> nat" where
  "forced_count tr = length (filter is_forced_close tr)"

fun is_listening_label :: "wlabel \<Rightarrow> bool" where
  "is_listening_label (WEnv t Listening) = True"
| "is_listening_label l = False"

text \<open>
  What holds of a worker from a shutdown request on: \<open>D\<close> is the instant the drain delay
  ends, \<open>F\<close> the instant the force-shutdown timer is due, \<open>n\<close> the number of forced
  closes seen before the request. While the process lives, either only the drain delay
  is pending and nothing has been closed, or the drain delay is over and the
  force-shutdown timer is pending.
\<close>

definition shutdown_inv :: "instant \<Rightarrow> instant \<Rightarrow> nat \<Rightarrow> worker \<Rightarrow> bool" where
  "shutdown_inv D F n s \<longleftrightarrow>
     server_isShuttingDown s \<and> wclock s \<le> F \<and> D \<le> F
     \<and> (forced_count (wtrace s) \<noteq> n \<longrightarrow> D \<le> wclock s)
     \<and> (case wexited s of
           Some c \<Rightarrow> (c = 0 \<or> c = 1) \<and> (c = 0 \<longrightarrow> server_connections s = [])
         | None \<Rightarrow>
             list_all (\<lambda>(due, k). wclock s \<le> due) (wtimers s)
             \<and> ((wtimers s = [(D, DrainDelay False)]
                  \<and> F = D + timer_delay (shutdownTimeout (WORKER_SHUTDOWN_TIMEOUT_MS s))
                  \<and> forced_count (wtrace s) = n)
                \<or> ((F, ForceShutdownTimer) \<in> set (wtimers s) \<and> D \<le> wclock s
                    \<and> \<not> list_ex is_drain_delay (wtimers s))))"

text \<open>The signal name that a shutdown request passes to \<^verbatim>\<open>gracefulShutdown\<close>: the
  shutdown message of the primary is turned into \<^verbatim>\<open>SIGTERM\<close>.\<close>

fun shutdown_request_name :: "wevent \<Rightarrow> string" where
  "shutdown_request_name Sigint = ''SIGINT''"
| "shutdown_request_name e = ''SIGTERM''"

text \<open>
  A run with drain delay 200 ms and shutdown timeout 250 ms in which the only connection
  closes 220 ms after the drain delay has ended: after the poll at 400 and before the
  force-shutdown timer at 450.
\<close>

definition late_close_run :: "wlabel list" where
  "late_close_run = [WEnv 0 Sigterm, WTick, WTick, WTick, WEnv 420 (ConnectionClose 1), WTick]"

subsection \<open>Notions used to state the shutdown properties of the primary\<close>




subsection \<open>How many timer firings are left before the forced exit\<close>

text \<open>
  A bound on the number of times a pending timer of the worker can still fire up to the
  instant \<open>F\<close>: the poll fires every 100 ms, the others once.
\<close>

fun firings_left :: "instant \<Rightarrow> instant \<times> wtimer \<Rightarrow> nat" where
  "firings_left F (due, CheckConnections) = (if due \<le> F then nat ((F - due) div 100) + 1 else 0)"
| "firings_left F (due, k) = (if due \<le> F then 1 else 0)"

definition firings_bound :: "instant \<Rightarrow> worker \<Rightarrow> nat" where
  "firings_bound F s = sum_list (map (firings_left F) (wtimers s))"



section \<open>The order of a rolling restart, as a monitor of the primary's observations\<close>

text \<open>
  The specification's order for a rolling restart: a new worker is forked for an old one
  when the restart is requested or when the pause after the previous old worker's exit is
  over; the old worker is disconnected only when the new worker forked for it has been
  observed listening; the pause for the next id starts only when the old worker, having
  been disconnected, has been observed to exit. The monitor reads the observations in
  order and remembers: the previous observation; for each fork, the info line logged just
  before it; the workers observed listening after their fork; the workers disconnected;
  and the disconnected workers observed to exit.
\<close>

definition rolling_log :: "wid \<Rightarrow> string" where
  "rolling_log w = ''Restarting worker '' @ show_nat w"

definition is_rolling_log :: "string \<Rightarrow> bool" where
  "is_rolling_log msg = (take 18 msg = ''Restarting worker '')"

record monitor =
  prev :: "obs option"
  started :: "(wid \<times> string) list"
  heard :: "wid list"
  disconnected :: "wid list"
  gone :: "wid list"

definition monitor_init :: monitor where
  "monitor_init = \<lparr> prev = None, started = [], heard = [], disconnected = [], gone = [] \<rparr>"

text \<open>
  Where a rolling restart may announce the next worker: right after the request has been
  logged, or right after a pause has ended, and then for a worker that comes in the list
  at or after the index the pause carries.
\<close>

fun after_request_or_pause :: "obs option \<Rightarrow> string \<Rightarrow> bool" where
  "after_request_or_pause (Some (Log l m)) msg =
     (l = Info \<and> m = ''Received SIGUSR2, performing rolling restart'')"
| "after_request_or_pause (Some (Fired t (RestartNextTimer wids j))) msg =
     list_ex (\<lambda>w. msg = rolling_log w) (drop j wids)"
| "after_request_or_pause x msg = False"

text \<open>What the order allows as the next observation.\<close>

fun monitor_ok :: "monitor \<Rightarrow> obs \<Rightarrow> bool" where
  "monitor_ok m (Log l msg) = (l = Info \<and> is_rolling_log msg \<longrightarrow> after_request_or_pause (prev m) msg)"
| "monitor_ok m (Disconnect old) =
     list_ex (\<lambda>(n, msg). msg = rolling_log old \<and> n \<in> set (heard m)) (started m)"
| "monitor_ok m (Fired t (RestartNextTimer wids j)) =
     (0 < j \<and> j \<le> length wids \<and> wids ! (j - 1) \<in> set (gone m))"
| "monitor_ok m x = True"

fun monitor_update :: "monitor \<Rightarrow> obs \<Rightarrow> monitor" where
  "monitor_update m (Fork n) =
     (case prev m of
        Some (Log Info msg) \<Rightarrow> m\<lparr>started := (n, msg) # started m, prev := Some (Fork n)\<rparr>
      | _ \<Rightarrow> m\<lparr>prev := Some (Fork n)\<rparr>)"
| "monitor_update m (Observed t (WorkerListening n)) =
     (if n \<in> fst ` set (started m)
      then m\<lparr>heard := n # heard m, prev := Some (Observed t (WorkerListening n))\<rparr>
      else m\<lparr>prev := Some (Observed t (WorkerListening n))\<rparr>)"
| "monitor_update m (Disconnect old) = m\<lparr>disconnected := old # disconnected m, prev := Some (Disconnect old)\<rparr>"
| "monitor_update m (Observed t (WorkerExit w code sig)) =
     (if w \<in> set (disconnected m)
      then m\<lparr>gone := w # gone m, prev := Some (Observed t (WorkerExit w code sig))\<rparr>
      else m\<lparr>prev := Some (Observed t (WorkerExit w code sig))\<rparr>)"
| "monitor_update m x = m\<lparr>prev := Some x\<rparr>"

fun monitor_run :: "monitor \<Rightarrow> obs list \<Rightarrow> monitor option" where
  "monitor_run m [] = Some m"
| "monitor_run m (x # xs) = (if monitor_ok m x then monitor_run (monitor_update m x) xs else None)"

definition rolling_order_respected :: "obs list \<Rightarrow> bool" where
  "rolling_order_respected tr = (monitor_run monitor_init tr \<noteq> None)"

text \<open>
  How the monitor's memory relates to the closures the primary holds: a registered
  \<^verbatim>\<open>listening\<close> callback belongs to a fork that followed the restart line of its old
  worker; a registered continuation on \<^verbatim>\<open>exit\<close> belongs to a disconnected worker; a
  pending pause belongs to a disconnected worker that has exited.
\<close>

definition monitor_rel :: "monitor \<Rightarrow> primary \<Rightarrow> bool" where
  "monitor_rel m s \<longleftrightarrow>
     (\<forall>(n, wids, i, old) \<in> set (onListening s).
        (n, rolling_log old) \<in> set (started m) \<and> i < length wids \<and> old = wids ! i)
     \<and> (\<forall>(old, l) \<in> set (onExit s). \<forall>wids i. l = RestartNextAfterExit wids i \<longrightarrow>
          old \<in> set (disconnected m) \<and> i < length wids \<and> old = wids ! i)
     \<and> (\<forall>(due, k) \<in> set (timers s). \<forall>wids j. k = RestartNextTimer wids j \<longrightarrow>
          0 < j \<and> j \<le> length wids \<and> wids ! (j - 1) \<in> set (gone m))"

definition monitor_state :: "monitor \<Rightarrow> primary \<Rightarrow> bool" where
  "monitor_state m s \<longleftrightarrow> monitor_run monitor_init (trace s) = Some m \<and> monitor_rel m s"

definition monitored :: "primary \<Rightarrow> bool" where
  "monitored s \<longleftrightarrow> (\<exists>m. monitor_state m s)"

text \<open>Whether \<^verbatim>\<open>restartNext(index)\<close> is being called from the request or from a pause that
  carries an index not beyond \<open>index\<close>.\<close>

definition restart_position :: "obs option \<Rightarrow> wid list \<Rightarrow> nat \<Rightarrow> bool" where
  "restart_position p wids i \<longleftrightarrow>
     p = Some (Log Info ''Received SIGUSR2, performing rolling restart'')
     \<or> (\<exists>t j. p = Some (Fired t (RestartNextTimer wids j)) \<and> j \<le> i)"

text \<open>A run of a primary with two workers in which both are replaced by a rolling
  restart.\<close>

definition rolling_run :: "plabel list" where
  "rolling_run =
     [Env 30 (Signalled SIGUSR2), Env 40 (WorkerListening 3), Env 50 (WorkerExit 1 None None), Tick,
      Env 1100 (WorkerListening 4), Env 1200 (WorkerListening 5), Env 1300 (WorkerExit 2 None None),
      Tick]"

section \<open>Properties of the primary process\<close>

subsection \<open>What each operation changes\<close>

lemma emit_fields [simp]:
  "isShuttingDown (emit x s) = isShuttingDown s"
  "workerRestarts (emit x s) = workerRestarts s"
  "maxRestartsPerMinute (emit x s) = maxRestartsPerMinute s"
  "ids (emit x s) = ids s"
  "workers (emit x s) = workers s"
  "lastHeartbeat (emit x s) = lastHeartbeat s"
  "timers (emit x s) = timers s"
  "onListening (emit x s) = onListening s"
  "onExit (emit x s) = onExit s"
  "trace (emit x s) = trace s @ [x]"
  "exited (emit x s) = exited s"
  "clock (emit x s) = clock s"
  "SHUTDOWN_TIMEOUT_MS (emit x s) = SHUTDOWN_TIMEOUT_MS s"
  by (simp_all add: emit_def)

lemma logger_fields [simp]:
  "isShuttingDown (logger l m s) = isShuttingDown s"
  "workerRestarts (logger l m s) = workerRestarts s"
  "maxRestartsPerMinute (logger l m s) = maxRestartsPerMinute s"
  "ids (logger l m s) = ids s"
  "workers (logger l m s) = workers s"
  "lastHeartbeat (logger l m s) = lastHeartbeat s"
  "timers (logger l m s) = timers s"
  "onListening (logger l m s) = onListening s"
  "onExit (logger l m s) = onExit s"
  "trace (logger l m s) = trace s @ [Log l m]"
  "exited (logger l m s) = exited s"
  "clock (logger l m s) = clock s"
  "SHUTDOWN_TIMEOUT_MS (logger l m s) = SHUTDOWN_TIMEOUT_MS s"
  by (simp_all add: logger_def)

lemma set_timer_fields [simp]:
  "isShuttingDown (set_timer d k s) = isShuttingDown s"
  "workerRestarts (set_timer d k s) = workerRestarts s"
  "maxRestartsPerMinute (set_timer d k s) = maxRestartsPerMinute s"
  "ids (set_timer d k s) = ids s"
  "workers (set_timer d k s) = workers s"
  "lastHeartbeat (set_timer d k s) = lastHeartbeat s"
  "timers (set_timer d k s) = timers s @ [(clock s + timer_delay d, k)]"
  "onListening (set_timer d k s) = onListening s"
  "onExit (set_timer d k s) = onExit s"
  "trace (set_timer d k s) = trace s"
  "exited (set_timer d k s) = exited s"
  "clock (set_timer d k s) = clock s"
  "SHUTDOWN_TIMEOUT_MS (set_timer d k s) = SHUTDOWN_TIMEOUT_MS s"
  by (simp_all add: set_timer_def)

lemma clear_timer_fields [simp]:
  "isShuttingDown (clear_timer k s) = isShuttingDown s"
  "workerRestarts (clear_timer k s) = workerRestarts s"
  "maxRestartsPerMinute (clear_timer k s) = maxRestartsPerMinute s"
  "ids (clear_timer k s) = ids s"
  "workers (clear_timer k s) = workers s"
  "lastHeartbeat (clear_timer k s) = lastHeartbeat s"
  "timers (clear_timer k s) = filter (\<lambda>(due, k'). k' \<noteq> k) (timers s)"
  "onListening (clear_timer k s) = onListening s"
  "onExit (clear_timer k s) = onExit s"
  "trace (clear_timer k s) = trace s"
  "exited (clear_timer k s) = exited s"
  "clock (clear_timer k s) = clock s"
  "SHUTDOWN_TIMEOUT_MS (clear_timer k s) = SHUTDOWN_TIMEOUT_MS s"
  by (simp_all add: clear_timer_def)

lemma process_exit_fields [simp]:
  "isShuttingDown (process_exit c s) = isShuttingDown s"
  "workerRestarts (process_exit c s) = workerRestarts s"
  "maxRestartsPerMinute (process_exit c s) = maxRestartsPerMinute s"
  "ids (process_exit c s) = ids s"
  "workers (process_exit c s) = workers s"
  "lastHeartbeat (process_exit c s) = lastHeartbeat s"
  "timers (process_exit c s) = timers s"
  "onListening (process_exit c s) = onListening s"
  "onExit (process_exit c s) = onExit s"
  "trace (process_exit c s) = trace s @ [ProcessExit c]"
  "exited (process_exit c s) = Some c"
  "clock (process_exit c s) = clock s"
  "SHUTDOWN_TIMEOUT_MS (process_exit c s) = SHUTDOWN_TIMEOUT_MS s"
  by (simp_all add: process_exit_def)

lemma cluster_fork_fields [simp]:
  "fst (cluster_fork s) = ids s + 1"
  "isShuttingDown (snd (cluster_fork s)) = isShuttingDown s"
  "workerRestarts (snd (cluster_fork s)) = workerRestarts s"
  "maxRestartsPerMinute (snd (cluster_fork s)) = maxRestartsPerMinute s"
  "ids (snd (cluster_fork s)) = ids s + 1"
  "workers (snd (cluster_fork s)) = workers s @ [ids s + 1]"
  "lastHeartbeat (snd (cluster_fork s)) = lastHeartbeat s"
  "timers (snd (cluster_fork s)) = timers s"
  "onListening (snd (cluster_fork s)) = onListening s"
  "onExit (snd (cluster_fork s)) = onExit s"
  "trace (snd (cluster_fork s)) = trace s @ [Fork (ids s + 1)]"
  "exited (snd (cluster_fork s)) = exited s"
  "clock (snd (cluster_fork s)) = clock s"
  "SHUTDOWN_TIMEOUT_MS (snd (cluster_fork s)) = SHUTDOWN_TIMEOUT_MS s"
  by (simp_all add: cluster_fork_def Let_def)

lemma forkWorker_fields [simp]:
  "fst (forkWorker s) = ids s + 1"
  "isShuttingDown (snd (forkWorker s)) = isShuttingDown s"
  "workerRestarts (snd (forkWorker s)) = workerRestarts s"
  "maxRestartsPerMinute (snd (forkWorker s)) = maxRestartsPerMinute s"
  "ids (snd (forkWorker s)) = ids s + 1"
  "workers (snd (forkWorker s)) = workers s @ [ids s + 1]"
  "lastHeartbeat (snd (forkWorker s)) = AList.update (ids s + 1) (clock s) (lastHeartbeat s)"
  "timers (snd (forkWorker s)) = timers s @ [(clock s + 30000, HeartbeatCheck (ids s + 1))]"
  "onListening (snd (forkWorker s)) = onListening s"
  "onExit (snd (forkWorker s)) = onExit s @ [(ids s + 1, ClearHeartbeat)]"
  "trace (snd (forkWorker s)) = trace s @ [Fork (ids s + 1)]"
  "exited (snd (forkWorker s)) = exited s"
  "clock (snd (forkWorker s)) = clock s"
  "SHUTDOWN_TIMEOUT_MS (snd (forkWorker s)) = SHUTDOWN_TIMEOUT_MS s"
  by (simp_all add: forkWorker_def Let_def split_beta timer_delay_def)

lemma restarts_of_update [simp]:
  "restarts_of (s\<lparr>workerRestarts := AList.update w r (workerRestarts s)\<rparr>) w' = (if w' = w then r else restarts_of s w')"
  by (simp add: restarts_of_def update_conv')

lemma on_exit_shutting_down:
  "isShuttingDown s \<Longrightarrow> on_exit w code sig s = logger Warn ''Worker died'' s"
  by (simp add: on_exit_def Let_def)

lemma on_exit_denied:
  "\<not> isShuttingDown s \<Longrightarrow> maxRestartsPerMinute s \<le> length (recentRestarts (clock s) (restarts_of s w)) \<Longrightarrow>
   on_exit w code sig s = logger Error (''Worker '' @ show_nat w @ '' restarting too frequently, not restarting'') (logger Warn ''Worker died'' s)"
  by (simp add: on_exit_def Let_def restarts_of_def)

lemma on_exit_allowed:
  "\<not> isShuttingDown s \<Longrightarrow> length (recentRestarts (clock s) (restarts_of s w)) < maxRestartsPerMinute s \<Longrightarrow>
   on_exit w code sig s = snd (forkWorker (logger Info ''Restarting worker''
       ((logger Warn ''Worker died'' s)\<lparr>workerRestarts := AList.update w (recentRestarts (clock s) (restarts_of s w) @ [clock s]) (workerRestarts s)\<rparr>)))"
  by (simp add: on_exit_def Let_def restarts_of_def)

subsection \<open>The exit handler\<close>

lemma on_exit_governor:
  assumes "\<not> isShuttingDown s"
  shows "(if length (recentRestarts (clock s) (restarts_of s w)) < maxRestartsPerMinute s
          then ids (on_exit w code sig s) = ids s + 1
             \<and> workers (on_exit w code sig s) = workers s @ [ids s + 1]
             \<and> restarts_of (on_exit w code sig s) w = recentRestarts (clock s) (restarts_of s w) @ [clock s]
          else ids (on_exit w code sig s) = ids s
             \<and> workers (on_exit w code sig s) = workers s
             \<and> workerRestarts (on_exit w code sig s) = workerRestarts s)"
proof (cases "length (recentRestarts (clock s) (restarts_of s w)) < maxRestartsPerMinute s")
  case True
  then show ?thesis using assms by (simp add: on_exit_allowed restarts_of_def update_conv')
next
  case False
  then show ?thesis using assms by (simp add: on_exit_denied)
qed

lemma on_exit_frame [simp]:
  "isShuttingDown (on_exit w code sig s) = isShuttingDown s"
  "maxRestartsPerMinute (on_exit w code sig s) = maxRestartsPerMinute s"
  "clock (on_exit w code sig s) = clock s"
  "exited (on_exit w code sig s) = exited s"
  by (simp_all add: on_exit_def Let_def)

lemma crash_step:
  assumes "\<not> isShuttingDown s" "restarts_of s w = h" "\<forall>x\<in>set h. t - x < 60000"
  shows "restarts_of (on_exit w c g (s\<lparr>clock := t\<rparr>)) w = (if length h < maxRestartsPerMinute s then h @ [t] else h)
       \<and> ids (on_exit w c g (s\<lparr>clock := t\<rparr>)) = (if length h < maxRestartsPerMinute s then ids s + 1 else ids s)"
proof -
  let ?s = "s\<lparr>clock := t\<rparr>"
  have r: "recentRestarts (clock ?s) (restarts_of ?s w) = h"
    using assms by (simp add: recentRestarts_def restarts_of_def)
  have n: "\<not> isShuttingDown ?s" using assms by simp
  show ?thesis using on_exit_governor[OF n, of w c g] r assms(2)
    by (auto simp: restarts_of_def)
qed

lemma six_crashes:
  assumes sd: "\<not> isShuttingDown s" and mx: "maxRestartsPerMinute s = 5" and h0: "restarts_of s w = []"
    and ord: "t1 \<le> t2" "t2 \<le> t3" "t3 \<le> t4" "t4 \<le> t5" "t5 \<le> t6" and span: "t6 - t1 \<le> 10000"
  shows "map (\<lambda>n. ids (crash_exits w (take n [t1, t2, t3, t4, t5, t6]) s)) [1, 2, 3, 4, 5, 6]
         = [ids s + 1, ids s + 2, ids s + 3, ids s + 4, ids s + 5, ids s + 5]"
proof -
  define s1 where "s1 = on_exit w (Some 1) None (s\<lparr>clock := t1\<rparr>)"
  define s2 where "s2 = on_exit w (Some 1) None (s1\<lparr>clock := t2\<rparr>)"
  define s3 where "s3 = on_exit w (Some 1) None (s2\<lparr>clock := t3\<rparr>)"
  define s4 where "s4 = on_exit w (Some 1) None (s3\<lparr>clock := t4\<rparr>)"
  define s5 where "s5 = on_exit w (Some 1) None (s4\<lparr>clock := t5\<rparr>)"
  define s6 where "s6 = on_exit w (Some 1) None (s5\<lparr>clock := t6\<rparr>)"
  have k1: "\<not> isShuttingDown s1 \<and> maxRestartsPerMinute s1 = 5 \<and> restarts_of s1 w = [t1] \<and> ids s1 = ids s + 1"
    using crash_step[OF sd h0, of t1 "Some 1" None] sd mx by (simp add: s1_def)
  have k2: "\<not> isShuttingDown s2 \<and> maxRestartsPerMinute s2 = 5 \<and> restarts_of s2 w = [t1, t2] \<and> ids s2 = ids s + 2"
    using crash_step[of s1 w "[t1]" t2 "Some 1" None] k1 ord span by (simp add: s2_def)
  have k3: "\<not> isShuttingDown s3 \<and> maxRestartsPerMinute s3 = 5 \<and> restarts_of s3 w = [t1, t2, t3] \<and> ids s3 = ids s + 3"
    using crash_step[of s2 w "[t1, t2]" t3 "Some 1" None] k2 ord span by (simp add: s3_def)
  have k4: "\<not> isShuttingDown s4 \<and> maxRestartsPerMinute s4 = 5 \<and> restarts_of s4 w = [t1, t2, t3, t4] \<and> ids s4 = ids s + 4"
    using crash_step[of s3 w "[t1, t2, t3]" t4 "Some 1" None] k3 ord span by (simp add: s4_def)
  have k5: "\<not> isShuttingDown s5 \<and> maxRestartsPerMinute s5 = 5 \<and> restarts_of s5 w = [t1, t2, t3, t4, t5] \<and> ids s5 = ids s + 5"
    using crash_step[of s4 w "[t1, t2, t3, t4]" t5 "Some 1" None] k4 ord span by (simp add: s5_def)
  have k6: "ids s6 = ids s + 5"
    using crash_step[of s5 w "[t1, t2, t3, t4, t5]" t6 "Some 1" None] k5 ord span by (simp add: s6_def)
  have t: "take 1 [t1, t2, t3, t4, t5, t6] = [t1]" "take 2 [t1, t2, t3, t4, t5, t6] = [t1, t2]"
    "take 3 [t1, t2, t3, t4, t5, t6] = [t1, t2, t3]" "take 4 [t1, t2, t3, t4, t5, t6] = [t1, t2, t3, t4]"
    "take 5 [t1, t2, t3, t4, t5, t6] = [t1, t2, t3, t4, t5]" "take 6 [t1, t2, t3, t4, t5, t6] = [t1, t2, t3, t4, t5, t6]"
    by (simp_all add: take_Cons')
  show ?thesis
    using k1 k2 k3 k4 k5 k6
    by (simp add: t crash_exits_def s1_def s2_def s3_def s4_def s5_def s6_def)
qed

subsection \<open>Once shutting down, always shutting down\<close>

lemma fold_keeps:
  assumes "\<And>x s. g (f x s) = g s"
  shows "g (fold f xs s) = g s"
  using assms by (induction xs arbitrary: s) simp_all

lemma fold_emit_fields [simp]:
  "isShuttingDown (fold (\<lambda>w. emit (h w)) ws s) = isShuttingDown s"
  "workerRestarts (fold (\<lambda>w. emit (h w)) ws s) = workerRestarts s"
  "maxRestartsPerMinute (fold (\<lambda>w. emit (h w)) ws s) = maxRestartsPerMinute s"
  "ids (fold (\<lambda>w. emit (h w)) ws s) = ids s"
  "workers (fold (\<lambda>w. emit (h w)) ws s) = workers s"
  "timers (fold (\<lambda>w. emit (h w)) ws s) = timers s"
  "exited (fold (\<lambda>w. emit (h w)) ws s) = exited s"
  "clock (fold (\<lambda>w. emit (h w)) ws s) = clock s"
  "SHUTDOWN_TIMEOUT_MS (fold (\<lambda>w. emit (h w)) ws s) = SHUTDOWN_TIMEOUT_MS s"
  "trace (fold (\<lambda>w. emit (h w)) ws s) = trace s @ map h ws"
  by (induction ws arbitrary: s) simp_all

lemma gracefulShutdown_frame [simp]:
  "isShuttingDown (gracefulShutdown sig s)"
  "workerRestarts (gracefulShutdown sig s) = workerRestarts s"
  "maxRestartsPerMinute (gracefulShutdown sig s) = maxRestartsPerMinute s"
  "ids (gracefulShutdown sig s) = ids s"
  "workers (gracefulShutdown sig s) = workers s"
  "exited (gracefulShutdown sig s) = exited s"
  "clock (gracefulShutdown sig s) = clock s"
  by (simp_all add: gracefulShutdown_def Let_def)

lemma checkInterval_frame [simp]:
  "isShuttingDown (checkInterval s) = isShuttingDown s"
  "workerRestarts (checkInterval s) = workerRestarts s"
  "maxRestartsPerMinute (checkInterval s) = maxRestartsPerMinute s"
  "ids (checkInterval s) = ids s"
  "workers (checkInterval s) = workers s"
  "clock (checkInterval s) = clock s"
  by (simp_all add: checkInterval_def)

lemma forceExit_frame [simp]:
  "isShuttingDown (forceExit s) = isShuttingDown s"
  "workerRestarts (forceExit s) = workerRestarts s"
  "maxRestartsPerMinute (forceExit s) = maxRestartsPerMinute s"
  "ids (forceExit s) = ids s"
  "workers (forceExit s) = workers s"
  "clock (forceExit s) = clock s"
  "exited (forceExit s) = Some 1"
  by (simp_all add: forceExit_def)

lemma heartbeatInterval_frame [simp]:
  "isShuttingDown (heartbeatInterval w s) = isShuttingDown s"
  "workerRestarts (heartbeatInterval w s) = workerRestarts s"
  "maxRestartsPerMinute (heartbeatInterval w s) = maxRestartsPerMinute s"
  "ids (heartbeatInterval w s) = ids s"
  "workers (heartbeatInterval w s) = workers s"
  "exited (heartbeatInterval w s) = exited s"
  "clock (heartbeatInterval w s) = clock s"
  by (simp_all add: heartbeatInterval_def Let_def)

lemma restartNext_frame [simp]:
  "isShuttingDown (restartNext wids i s) = isShuttingDown s"
  "workerRestarts (restartNext wids i s) = workerRestarts s"
  "maxRestartsPerMinute (restartNext wids i s) = maxRestartsPerMinute s"
  "exited (restartNext wids i s) = exited s"
  "clock (restartNext wids i s) = clock s"
  by (induction wids i s rule: restartNext.induct; subst restartNext.simps; simp add: Let_def split_beta)+

lemma rollingRestart_frame [simp]:
  "isShuttingDown (rollingRestart s) = isShuttingDown s"
  "workerRestarts (rollingRestart s) = workerRestarts s"
  "maxRestartsPerMinute (rollingRestart s) = maxRestartsPerMinute s"
  "exited (rollingRestart s) = exited s"
  "clock (rollingRestart s) = clock s"
  by (simp_all add: rollingRestart_def Let_def)

lemma newWorker_listening_frame [simp]:
  "isShuttingDown (newWorker_listening l s) = isShuttingDown s"
  "workerRestarts (newWorker_listening l s) = workerRestarts s"
  "maxRestartsPerMinute (newWorker_listening l s) = maxRestartsPerMinute s"
  "ids (newWorker_listening l s) = ids s"
  "workers (newWorker_listening l s) = workers s"
  "timers (newWorker_listening l s) = timers s"
  "exited (newWorker_listening l s) = exited s"
  "clock (newWorker_listening l s) = clock s"
  by (simp_all add: newWorker_listening_def Let_def split: prod.splits)

lemma worker_exit_listener_frame [simp]:
  "isShuttingDown (worker_exit_listener w l s) = isShuttingDown s"
  "workerRestarts (worker_exit_listener w l s) = workerRestarts s"
  "maxRestartsPerMinute (worker_exit_listener w l s) = maxRestartsPerMinute s"
  "ids (worker_exit_listener w l s) = ids s"
  "workers (worker_exit_listener w l s) = workers s"
  "trace (worker_exit_listener w l s) = trace s"
  "exited (worker_exit_listener w l s) = exited s"
  "clock (worker_exit_listener w l s) = clock s"
  by (cases l; simp)+

lemma fold_newWorker_listening_frame [simp]:
  "isShuttingDown (fold newWorker_listening ls s) = isShuttingDown s"
  "workerRestarts (fold newWorker_listening ls s) = workerRestarts s"
  "maxRestartsPerMinute (fold newWorker_listening ls s) = maxRestartsPerMinute s"
  "ids (fold newWorker_listening ls s) = ids s"
  "workers (fold newWorker_listening ls s) = workers s"
  "timers (fold newWorker_listening ls s) = timers s"
  "exited (fold newWorker_listening ls s) = exited s"
  "clock (fold newWorker_listening ls s) = clock s"
  by (rule fold_keeps, simp)+

lemma fold_worker_exit_listener_frame [simp]:
  "isShuttingDown (fold (worker_exit_listener w) ls s) = isShuttingDown s"
  "workerRestarts (fold (worker_exit_listener w) ls s) = workerRestarts s"
  "maxRestartsPerMinute (fold (worker_exit_listener w) ls s) = maxRestartsPerMinute s"
  "ids (fold (worker_exit_listener w) ls s) = ids s"
  "workers (fold (worker_exit_listener w) ls s) = workers s"
  "trace (fold (worker_exit_listener w) ls s) = trace s"
  "exited (fold (worker_exit_listener w) ls s) = exited s"
  "clock (fold (worker_exit_listener w) ls s) = clock s"
  by (rule fold_keeps, simp)+

lemma dispatch_shutting_down:
  assumes "isShuttingDown s"
  shows "isShuttingDown (dispatch e s) \<and> workerRestarts (dispatch e s) = workerRestarts s
       \<and> maxRestartsPerMinute (dispatch e s) = maxRestartsPerMinute s"
proof (cases e)
  case (WorkerExit w code sig)
  then show ?thesis using assms by (simp add: Let_def on_exit_shutting_down)
next
  case (Signalled g)
  then show ?thesis using assms by (cases g) simp_all
qed (use assms in \<open>simp_all add: Let_def\<close>)

lemma run_timer_shutting_down:
  "isShuttingDown (run_timer k s) = isShuttingDown s"
  "workerRestarts (run_timer k s) = workerRestarts s"
  "maxRestartsPerMinute (run_timer k s) = maxRestartsPerMinute s"
  by (cases k; simp)+

lemma primary_step_shutting_down:
  assumes "isShuttingDown s"
  shows "isShuttingDown (primary_step s l) \<and> workerRestarts (primary_step s l) = workerRestarts s
       \<and> maxRestartsPerMinute (primary_step s l) = maxRestartsPerMinute s"
proof (cases l)
  case (Env t e)
  then show ?thesis using assms dispatch_shutting_down[of "emit (Observed t e) (s\<lparr>clock := t\<rparr>)" e] by simp
next
  case Tick
  then show ?thesis using assms by (simp add: run_timer_shutting_down split: option.splits prod.splits)
qed

lemma primary_run_shutting_down:
  assumes "isShuttingDown s"
  shows "isShuttingDown (primary_run s ls) \<and> workerRestarts (primary_run s ls) = workerRestarts s
       \<and> maxRestartsPerMinute (primary_run s ls) = maxRestartsPerMinute s"
  unfolding primary_run_def using assms
proof (induction ls arbitrary: s)
  case Nil
  then show ?case by simp
next
  case (Cons l ls)
  then show ?case using primary_step_shutting_down[of s l] by simp
qed

subsection \<open>Rolling restart of one worker, followed by its exit\<close>

lemma restartNext_live:
  assumes "i < length wids" "wids ! i \<in> set (workers s)"
  shows "restartNext wids i s =
           (snd (cluster_fork (logger Info (''Restarting worker '' @ show_nat (wids ! i)) s)))
             \<lparr>onListening := onListening s @ [(ids s + 1, (wids, i, wids ! i))]\<rparr>"
  using assms by (subst restartNext.simps) (simp add: Let_def split_beta)

lemma listeners_for_append [simp]:
  "listeners_for w (xs @ ys) = listeners_for w xs @ listeners_for w ys"
  by (simp add: listeners_for_def)

lemma listeners_for_single [simp]:
  "listeners_for w [(w', l)] = (if w' = w then [l] else [])"
  by (simp add: listeners_for_def)

lemma restarts_of_cong: "workerRestarts s' = workerRestarts s \<Longrightarrow> restarts_of s' w = restarts_of s w"
  by (simp add: restarts_of_def)

lemma rolling_restart_double_fork:
  assumes ex: "exited s = None" and sd: "\<not> isShuttingDown s"
    and i: "i < length wids" and live: "wids ! i \<in> set (workers s)"
    and unused: "ids s + 1 \<notin> set (workers s)"
    and fresh: "listeners_for (ids s + 1) (onListening s) = []"
    and under: "length (recentRestarts t' (restarts_of s (wids ! i))) < maxRestartsPerMinute s"
  shows "ids (restartNext wids i s) = ids s + 1
       \<and> workers (restartNext wids i s) = workers s @ [ids s + 1]
       \<and> trace (primary_step (restartNext wids i s) (Env t (WorkerListening (ids s + 1))))
           = trace (restartNext wids i s)
             @ [Observed t (WorkerListening (ids s + 1)), Disconnect (wids ! i), Log Info ''Worker listening'']
       \<and> ids (primary_step (primary_step (restartNext wids i s) (Env t (WorkerListening (ids s + 1))))
                 (Env t' (WorkerExit (wids ! i) code sig))) = ids s + 2
       \<and> workers (primary_step (primary_step (restartNext wids i s) (Env t (WorkerListening (ids s + 1))))
                 (Env t' (WorkerExit (wids ! i) code sig)))
           = filter (\<lambda>w'. w' \<noteq> wids ! i) (workers s) @ [ids s + 1, ids s + 2]"
proof -
  define w where "w = wids ! i"
  define s1 where "s1 = restartNext wids i s"
  define s2 where "s2 = primary_step s1 (Env t (WorkerListening (ids s + 1)))"
  have s1: "ids s1 = ids s + 1" "workers s1 = workers s @ [ids s + 1]"
    "onListening s1 = onListening s @ [(ids s + 1, (wids, i, w))]"
    unfolding s1_def w_def by (simp_all add: restartNext_live[OF i live])
  have s1': "exited s1 = None" "\<not> isShuttingDown s1" "workerRestarts s1 = workerRestarts s"
    "maxRestartsPerMinute s1 = maxRestartsPerMinute s"
    unfolding s1_def using ex sd by simp_all
  have s2eq: "s2 = logger Info ''Worker listening''
                  (newWorker_listening (wids, i, w) (emit (Observed t (WorkerListening (ids s + 1))) (s1\<lparr>clock := t\<rparr>)))"
    unfolding s2_def using s1' s1(3) fresh by (simp add: Let_def)
  have s2: "ids s2 = ids s + 1" "workers s2 = workers s @ [ids s + 1]" "exited s2 = None"
    "\<not> isShuttingDown s2" "workerRestarts s2 = workerRestarts s"
    "maxRestartsPerMinute s2 = maxRestartsPerMinute s"
    "trace s2 = trace s1 @ [Observed t (WorkerListening (ids s + 1)), Disconnect w, Log Info ''Worker listening'']"
    unfolding s2eq using s1 s1' by (simp_all add: newWorker_listening_def Let_def)
  define pre where "pre = fold (worker_exit_listener w)
       (listeners_for w (onExit (emit (Observed t' (WorkerExit w code sig)) (s2\<lparr>clock := t'\<rparr>))))
       ((emit (Observed t' (WorkerExit w code sig)) (s2\<lparr>clock := t'\<rparr>))\<lparr>workers := filter (\<lambda>w'. w' \<noteq> w) (workers s2)\<rparr>)"
  have s3eq: "primary_step s2 (Env t' (WorkerExit w code sig)) = on_exit w code sig pre"
    unfolding pre_def using s2(3) by (simp add: Let_def)
  have pre: "\<not> isShuttingDown pre" "clock pre = t'" "workerRestarts pre = workerRestarts s"
    "maxRestartsPerMinute pre = maxRestartsPerMinute s" "ids pre = ids s + 1"
    "workers pre = filter (\<lambda>w'. w' \<noteq> w) (workers s @ [ids s + 1])"
    unfolding pre_def using s2 by simp_all
  have ne: "ids s + 1 \<noteq> w" using live unused by (auto simp: w_def)
  have "restarts_of pre w = restarts_of s w"
    using pre(3) by (rule restarts_of_cong)
  then have under': "length (recentRestarts (clock pre) (restarts_of pre w)) < maxRestartsPerMinute pre"
    using under pre(2,4) by (simp add: w_def)
  have "ids (on_exit w code sig pre) = ids pre + 1"
       "workers (on_exit w code sig pre) = workers pre @ [ids pre + 1]"
    using on_exit_governor[OF pre(1), of w code sig] under' by simp_all
  then have "ids (primary_step s2 (Env t' (WorkerExit w code sig))) = ids s + 2"
    "workers (primary_step s2 (Env t' (WorkerExit w code sig))) = filter (\<lambda>w'. w' \<noteq> w) (workers s) @ [ids s + 1, ids s + 2]"
    unfolding s3eq using pre ne by simp_all
  then show ?thesis using s1(1,2) s2(7) unfolding s2_def s1_def w_def by simp
qed

subsection \<open>Evaluation of concrete runs\<close>

lemma show_nat_Suc_0: "show_nat (Suc 0) = ''1''"
  by (simp add: show_nat.simps[of "Suc 0"])

lemmas primary_start_defs = primary_start_def primary_boot_def

lemmas primary_defs = forkWorker_def cluster_fork_def emit_def logger_def
  set_timer_def clear_timer_def timer_delay_def Let_def restarts_of_def recentRestarts_def listeners_for_def
  on_exit_def primary_run_def gracefulShutdown_def shutdownTimeout_def process_exit_def
  checkInterval_def forceExit_def heartbeatInterval_def rollingRestart_def newWorker_listening_def

lemma primary_start_1: "primary_start 0 None 1 =
   \<lparr>isShuttingDown = False, workerRestarts = [], maxRestartsPerMinute = 5,
    ids = 1, workers = [1], lastHeartbeat = [(1, 0)],
    timers = [(30000, HeartbeatCheck 1)],
    onListening = [], onExit = [(1, ClearHeartbeat)],
    trace = [Log Info ''Primary process started'', Fork 1],
    exited = None, clock = 0, SHUTDOWN_TIMEOUT_MS = None\<rparr>"
  by (simp add: primary_start_defs primary_defs)

lemma primary_start_2: "primary_start 0 None 2 =
   \<lparr>isShuttingDown = False, workerRestarts = [], maxRestartsPerMinute = 5,
    ids = 2, workers = [1, 2], lastHeartbeat = [(1, 0), (2, 0)],
    timers = [(30000, HeartbeatCheck 1), (30000, HeartbeatCheck 2)],
    onListening = [], onExit = [(1, ClearHeartbeat), (2, ClearHeartbeat)],
    trace = [Log Info ''Primary process started'', Fork 1, Fork 2],
    exited = None, clock = 0, SHUTDOWN_TIMEOUT_MS = None\<rparr>"
  by (simp add: primary_start_defs primary_defs eval_nat_numeral)

section \<open>Properties of the worker process\<close>

subsection \<open>What each operation changes\<close>

lemma wemit_fields [simp]:
  "server_isShuttingDown (wemit x s) = server_isShuttingDown s"
  "server_connections (wemit x s) = server_connections s"
  "server_listening (wemit x s) = server_listening s"
  "health_isReady (wemit x s) = health_isReady s"
  "health_isHealthy (wemit x s) = health_isHealthy s"
  "health_checks (wemit x s) = health_checks s"
  "wtimers (wemit x s) = wtimers s"
  "wtrace (wemit x s) = wtrace s @ [x]"
  "wexited (wemit x s) = wexited s"
  "wclock (wemit x s) = wclock s"
  "DRAIN_DELAY_MS (wemit x s) = DRAIN_DELAY_MS s"
  "WORKER_SHUTDOWN_TIMEOUT_MS (wemit x s) = WORKER_SHUTDOWN_TIMEOUT_MS s"
  by (simp_all add: wemit_def)

lemma wlogger_fields [simp]:
  "server_isShuttingDown (wlogger l m s) = server_isShuttingDown s"
  "server_connections (wlogger l m s) = server_connections s"
  "server_listening (wlogger l m s) = server_listening s"
  "health_isReady (wlogger l m s) = health_isReady s"
  "health_isHealthy (wlogger l m s) = health_isHealthy s"
  "health_checks (wlogger l m s) = health_checks s"
  "wtimers (wlogger l m s) = wtimers s"
  "wtrace (wlogger l m s) = wtrace s @ [WLog l m]"
  "wexited (wlogger l m s) = wexited s"
  "wclock (wlogger l m s) = wclock s"
  "DRAIN_DELAY_MS (wlogger l m s) = DRAIN_DELAY_MS s"
  "WORKER_SHUTDOWN_TIMEOUT_MS (wlogger l m s) = WORKER_SHUTDOWN_TIMEOUT_MS s"
  by (simp_all add: wlogger_def)

lemma wset_timer_fields [simp]:
  "server_isShuttingDown (wset_timer d k s) = server_isShuttingDown s"
  "server_connections (wset_timer d k s) = server_connections s"
  "server_listening (wset_timer d k s) = server_listening s"
  "health_isReady (wset_timer d k s) = health_isReady s"
  "health_isHealthy (wset_timer d k s) = health_isHealthy s"
  "health_checks (wset_timer d k s) = health_checks s"
  "wtimers (wset_timer d k s) = wtimers s @ [(wclock s + timer_delay d, k)]"
  "wtrace (wset_timer d k s) = wtrace s"
  "wexited (wset_timer d k s) = wexited s"
  "wclock (wset_timer d k s) = wclock s"
  "DRAIN_DELAY_MS (wset_timer d k s) = DRAIN_DELAY_MS s"
  "WORKER_SHUTDOWN_TIMEOUT_MS (wset_timer d k s) = WORKER_SHUTDOWN_TIMEOUT_MS s"
  by (simp_all add: wset_timer_def)

lemma wclear_timer_fields [simp]:
  "server_isShuttingDown (wclear_timer k s) = server_isShuttingDown s"
  "server_connections (wclear_timer k s) = server_connections s"
  "server_listening (wclear_timer k s) = server_listening s"
  "health_isReady (wclear_timer k s) = health_isReady s"
  "health_isHealthy (wclear_timer k s) = health_isHealthy s"
  "health_checks (wclear_timer k s) = health_checks s"
  "wtimers (wclear_timer k s) = filter (\<lambda>(due, k'). k' \<noteq> k) (wtimers s)"
  "wtrace (wclear_timer k s) = wtrace s"
  "wexited (wclear_timer k s) = wexited s"
  "wclock (wclear_timer k s) = wclock s"
  "DRAIN_DELAY_MS (wclear_timer k s) = DRAIN_DELAY_MS s"
  "WORKER_SHUTDOWN_TIMEOUT_MS (wclear_timer k s) = WORKER_SHUTDOWN_TIMEOUT_MS s"
  by (simp_all add: wclear_timer_def)

lemma wprocess_exit_fields [simp]:
  "server_isShuttingDown (wprocess_exit c s) = server_isShuttingDown s"
  "server_connections (wprocess_exit c s) = server_connections s"
  "server_listening (wprocess_exit c s) = server_listening s"
  "health_isReady (wprocess_exit c s) = health_isReady s"
  "health_isHealthy (wprocess_exit c s) = health_isHealthy s"
  "health_checks (wprocess_exit c s) = health_checks s"
  "wtimers (wprocess_exit c s) = wtimers s"
  "wtrace (wprocess_exit c s) = wtrace s @ [WExit c]"
  "wexited (wprocess_exit c s) = Some c"
  "wclock (wprocess_exit c s) = wclock s"
  "DRAIN_DELAY_MS (wprocess_exit c s) = DRAIN_DELAY_MS s"
  "WORKER_SHUTDOWN_TIMEOUT_MS (wprocess_exit c s) = WORKER_SHUTDOWN_TIMEOUT_MS s"
  by (simp_all add: wprocess_exit_def)

lemma markReady_fields [simp]:
  "server_isShuttingDown (markReady s) = server_isShuttingDown s"
  "server_connections (markReady s) = server_connections s"
  "server_listening (markReady s) = server_listening s"
  "health_isReady (markReady s)"
  "wtimers (markReady s) = wtimers s"
  "wtrace (markReady s) = wtrace s @ [WLog Info ''Application marked as ready'']"
  "wexited (markReady s) = wexited s"
  "wclock (markReady s) = wclock s"
  "DRAIN_DELAY_MS (markReady s) = DRAIN_DELAY_MS s"
  "WORKER_SHUTDOWN_TIMEOUT_MS (markReady s) = WORKER_SHUTDOWN_TIMEOUT_MS s"
  by (simp_all add: markReady_def)

lemma markNotReady_fields [simp]:
  "server_isShuttingDown (markNotReady s) = server_isShuttingDown s"
  "server_connections (markNotReady s) = server_connections s"
  "server_listening (markNotReady s) = server_listening s"
  "\<not> health_isReady (markNotReady s)"
  "wtimers (markNotReady s) = wtimers s"
  "wtrace (markNotReady s) = wtrace s @ [WLog Warn ''Application marked as not ready'']"
  "wexited (markNotReady s) = wexited s"
  "wclock (markNotReady s) = wclock s"
  "DRAIN_DELAY_MS (markNotReady s) = DRAIN_DELAY_MS s"
  "WORKER_SHUTDOWN_TIMEOUT_MS (markNotReady s) = WORKER_SHUTDOWN_TIMEOUT_MS s"
  by (simp_all add: markNotReady_def)

lemma runHealthChecks_fields [simp]:
  "fst (runHealthChecks m s) = [(''memory'', health_word (memoryHealthy m)),
      (''eventLoop'', health_word (eventLoopHealthy m)), (''database'', ''healthy'')]"
  "health_isHealthy (snd (runHealthChecks m s)) = (memoryHealthy m \<and> eventLoopHealthy m)"
  "server_isShuttingDown (snd (runHealthChecks m s)) = server_isShuttingDown s"
  "server_connections (snd (runHealthChecks m s)) = server_connections s"
  "server_listening (snd (runHealthChecks m s)) = server_listening s"
  "health_isReady (snd (runHealthChecks m s)) = health_isReady s"
  "wtimers (snd (runHealthChecks m s)) = wtimers s"
  "wtrace (snd (runHealthChecks m s)) = wtrace s"
  "wexited (snd (runHealthChecks m s)) = wexited s"
  "wclock (snd (runHealthChecks m s)) = wclock s"
  "DRAIN_DELAY_MS (snd (runHealthChecks m s)) = DRAIN_DELAY_MS s"
  "WORKER_SHUTDOWN_TIMEOUT_MS (snd (runHealthChecks m s)) = WORKER_SHUTDOWN_TIMEOUT_MS s"
  by (simp_all add: runHealthChecks_def Let_def updateHealthCheck_def health_word_def)

lemma get_ready_status:
  "status_code (fst (get_ready m s)) = (if health_isReady s \<and> memoryHealthy m \<and> eventLoopHealthy m then 200 else 503)"
  by (simp add: get_ready_def split_beta Let_def)

lemma get_ready_frame [simp]:
  "server_isShuttingDown (snd (get_ready m s)) = server_isShuttingDown s"
  "server_connections (snd (get_ready m s)) = server_connections s"
  "server_listening (snd (get_ready m s)) = server_listening s"
  "health_isReady (snd (get_ready m s)) = health_isReady s"
  "wtimers (snd (get_ready m s)) = wtimers s"
  "wtrace (snd (get_ready m s)) = wtrace s"
  "wexited (snd (get_ready m s)) = wexited s"
  "wclock (snd (get_ready m s)) = wclock s"
  "DRAIN_DELAY_MS (snd (get_ready m s)) = DRAIN_DELAY_MS s"
  "WORKER_SHUTDOWN_TIMEOUT_MS (snd (get_ready m s)) = WORKER_SHUTDOWN_TIMEOUT_MS s"
  by (simp_all add: get_ready_def split_beta Let_def)

lemma get_health_frame [simp]:
  "server_isShuttingDown (snd (get_health m s)) = server_isShuttingDown s"
  "server_connections (snd (get_health m s)) = server_connections s"
  "server_listening (snd (get_health m s)) = server_listening s"
  "health_isReady (snd (get_health m s)) = health_isReady s"
  "wtimers (snd (get_health m s)) = wtimers s"
  "wtrace (snd (get_health m s)) = wtrace s"
  "wexited (snd (get_health m s)) = wexited s"
  "wclock (snd (get_health m s)) = wclock s"
  "DRAIN_DELAY_MS (snd (get_health m s)) = DRAIN_DELAY_MS s"
  "WORKER_SHUTDOWN_TIMEOUT_MS (snd (get_health m s)) = WORKER_SHUTDOWN_TIMEOUT_MS s"
  by (simp_all add: get_health_def split_beta Let_def)

lemma get_live_frame [simp]: "snd (get_live s) = s"
  by (simp add: get_live_def)

subsection \<open>Evaluation of concrete worker runs\<close>

lemmas worker_defs = worker_run_def wemit_def wlogger_def wset_timer_def wclear_timer_def
  wprocess_exit_def markReady_def markNotReady_def server_gracefulShutdown_def drainDelay_def shutdownTimeout_def
  end_connection_def after_drain_def forceShutdownTimer_def destroyTimer_def checkConnections_def
  uncaughtException_def timer_delay_def Let_def

lemma one_connection_worker_eval:
  "one_connection_worker d t =
    \<lparr>server_isShuttingDown = False, server_connections = [1], server_listening = True,
      health_isReady = True, health_isHealthy = True,
      health_checks = [(''database'', ''unknown''), (''memory'', ''unknown''), (''eventLoop'', ''unknown'')],
      wtimers = [],
      wtrace = [WObserved (- 20) Listening, WLog Info ''Server started successfully'',
                WLog Info ''Application marked as ready'', WObserved (- 10) (Connection 1)],
      wexited = None, wclock = - 10, DRAIN_DELAY_MS = Some d, WORKER_SHUTDOWN_TIMEOUT_MS = Some t\<rparr>"
  by (simp add: one_connection_worker_def worker_boot_def worker_defs)

lemma show_200: "show_int 200 = ''200''"
  by (simp add: show_int_def show_nat.simps[of 200] show_nat.simps[of 20] show_nat.simps[of 2])

lemma stuck_connection_timeline:
  "timeline (one_connection_worker 200 1000) (sigterm_then_ticks 11)
   = [(0, DRAINING), (200, CLOSING), (300, CLOSING), (400, CLOSING), (500, CLOSING), (600, CLOSING),
      (700, CLOSING), (800, CLOSING), (900, CLOSING), (1000, CLOSING), (1100, CLOSING), (1200, TERMINATED)]"
  by (simp add: one_connection_worker_eval sigterm_then_ticks_def worker_defs phase_def eval_nat_numeral)

lemma stuck_connection_final:
  "wexited (worker_run (one_connection_worker 200 1000) (sigterm_then_ticks 11)) = Some 1
   \<and> server_connections (worker_run (one_connection_worker 200 1000) (sigterm_then_ticks 11)) = [1] 
   \<and> wrun_ok (one_connection_worker 200 1000) (sigterm_then_ticks 11)"
  by (simp add: one_connection_worker_eval sigterm_then_ticks_def worker_defs phase_def eval_nat_numeral)
subsection \<open>Shutdown requests of the worker\<close>

lemma server_gracefulShutdown_again:
  "server_isShuttingDown s \<Longrightarrow>
   server_gracefulShutdown sig False s = wlogger Warn ''Shutdown already in progress, ignoring signal'' s"
  by (simp add: server_gracefulShutdown_def Let_def)

lemma server_gracefulShutdown_first:
  "\<not> server_isShuttingDown s \<Longrightarrow>
   server_isShuttingDown (server_gracefulShutdown sig b s)
   \<and> \<not> health_isReady (server_gracefulShutdown sig b s)
   \<and> wtimers (server_gracefulShutdown sig b s)
       = wtimers s @ [(wclock s + timer_delay (drainDelay (DRAIN_DELAY_MS s)), DrainDelay b)]
   \<and> wtrace (server_gracefulShutdown sig b s)
       = wtrace s @ [WLog Info (''Received '' @ sig @ '', starting graceful shutdown...''),
                     WLog Warn ''Application marked as not ready'',
                     WLog Info (''Waiting '' @ show_int (drainDelay (DRAIN_DELAY_MS s)) @ ''ms for load balancer drain...'')]
   \<and> wexited (server_gracefulShutdown sig b s) = wexited s
   \<and> wclock (server_gracefulShutdown sig b s) = wclock s
   \<and> server_connections (server_gracefulShutdown sig b s) = server_connections s
   \<and> server_listening (server_gracefulShutdown sig b s) = server_listening s
   \<and> DRAIN_DELAY_MS (server_gracefulShutdown sig b s) = DRAIN_DELAY_MS s
   \<and> WORKER_SHUTDOWN_TIMEOUT_MS (server_gracefulShutdown sig b s) = WORKER_SHUTDOWN_TIMEOUT_MS s"
  by (simp add: server_gracefulShutdown_def Let_def)

lemma gracefulShutdown_again: "isShuttingDown p \<Longrightarrow> gracefulShutdown g p = p"
  by (simp add: gracefulShutdown_def)

lemma sigterm_twice:
  assumes n: "\<not> server_isShuttingDown s" and e: "wexited s = None"
  shows "wtimers (worker_run s [WEnv t Sigterm, WEnv t' Sigterm])
          = wtimers s @ [(t + timer_delay (drainDelay (DRAIN_DELAY_MS s)), DrainDelay False)]
      \<and> wtrace (worker_run s [WEnv t Sigterm, WEnv t' Sigterm])
          = wtrace s @ [WObserved t Sigterm,
                        WLog Info ''Received SIGTERM, starting graceful shutdown...'',
                        WLog Warn ''Application marked as not ready'',
                        WLog Info (''Waiting '' @ show_int (drainDelay (DRAIN_DELAY_MS s)) @ ''ms for load balancer drain...''),
                        WObserved t' Sigterm,
                        WLog Warn ''Shutdown already in progress, ignoring signal'']"
proof -
  define s0 where "s0 = wemit (WObserved t Sigterm) (s\<lparr>wclock := t\<rparr>)"
  define s1 where "s1 = server_gracefulShutdown ''SIGTERM'' False s0"
  have s0: "\<not> server_isShuttingDown s0" "wexited s0 = None" "wclock s0 = t" "wtimers s0 = wtimers s"
    "wtrace s0 = wtrace s @ [WObserved t Sigterm]" "DRAIN_DELAY_MS s0 = DRAIN_DELAY_MS s"
    using n e by (simp_all add: s0_def)
  note f = server_gracefulShutdown_first[OF s0(1), of "''SIGTERM''" False, folded s1_def]
  have st1: "worker_step s (WEnv t Sigterm) = s1"
    using e by (simp add: s1_def s0_def)
  have st2: "worker_step s1 (WEnv t' Sigterm)
               = wlogger Warn ''Shutdown already in progress, ignoring signal'' (wemit (WObserved t' Sigterm) (s1\<lparr>wclock := t'\<rparr>))"
    using f s0(2) by (simp add: server_gracefulShutdown_again)
  show ?thesis
    unfolding worker_run_def foldl.simps st1 st2 using f s0 by simp
qed

subsection \<open>From the shutdown request to the exit\<close>

lemma next_timer_None: "next_timer ts = None \<longleftrightarrow> ts = []"
  by (cases ts) (auto split: option.splits if_splits)

lemma next_timer_min:
  "next_timer ts = Some (due, k) \<Longrightarrow> (due, k) \<in> set ts \<and> (\<forall>(d, k') \<in> set ts. due \<le> d)"
proof (induction ts arbitrary: due k)
  case Nil
  then show ?case by simp
next
  case (Cons x xs)
  show ?case
  proof (cases "next_timer xs")
    case None
    then have "xs = []" by (simp add: next_timer_None)
    with Cons.prems None show ?thesis by auto
  next
    case (Some y)
    obtain d' k' where y: "y = (d', k')" by (cases y)
    from Cons.IH[of d' k'] Some y have ih: "(d', k') \<in> set xs" "\<forall>(d, k'') \<in> set xs. d' \<le> d" by auto
    show ?thesis using Cons.prems Some y ih by (auto split: if_splits)
  qed
qed

lemma forced_count_append [simp]:
  "forced_count (tr @ tr') = forced_count tr + forced_count tr'"
  by (simp add: forced_count_def)

lemma forced_count_simps [simp]:
  "forced_count [] = 0"
  "forced_count (x # tr) = (if is_forced_close x then 1 else 0) + forced_count tr"
  by (simp_all add: forced_count_def)

lemma server_gracefulShutdown_dup:
  assumes "server_isShuttingDown s"
  shows "server_gracefulShutdown sig b s =
          (if b then wprocess_exit 1 (wlogger Warn ''Shutdown already in progress, ignoring signal'' s)
           else wlogger Warn ''Shutdown already in progress, ignoring signal'' s)"
  using assms by (simp add: server_gracefulShutdown_def Let_def)

lemma wdispatch_shutting_down:
  assumes "server_isShuttingDown s" "wexited s = None"
  shows "server_isShuttingDown (wdispatch e s)"
    "wtimers (wdispatch e s) = wtimers s"
    "wclock (wdispatch e s) = wclock s"
    "forced_count (wtrace (wdispatch e s)) = forced_count (wtrace s)"
    "WORKER_SHUTDOWN_TIMEOUT_MS (wdispatch e s) = WORKER_SHUTDOWN_TIMEOUT_MS s"
    "wexited (wdispatch e s) = None \<or> wexited (wdispatch e s) = Some 1"
  using assms
  by (cases e; simp add: server_gracefulShutdown_dup uncaughtException_def split_beta Let_def)+

lemma fold_end_connection_fields [simp]:
  "server_isShuttingDown (fold end_connection cs s) = server_isShuttingDown s"
  "server_connections (fold end_connection cs s) = server_connections s"
  "server_listening (fold end_connection cs s) = server_listening s"
  "health_isReady (fold end_connection cs s) = health_isReady s"
  "wtimers (fold end_connection cs s) = wtimers s @ map (\<lambda>c. (wclock s + 5000, DestroyTimer c)) cs"
  "wtrace (fold end_connection cs s) = wtrace s @ map ConnEnd cs"
  "wexited (fold end_connection cs s) = wexited s"
  "wclock (fold end_connection cs s) = wclock s"
  "DRAIN_DELAY_MS (fold end_connection cs s) = DRAIN_DELAY_MS s"
  "WORKER_SHUTDOWN_TIMEOUT_MS (fold end_connection cs s) = WORKER_SHUTDOWN_TIMEOUT_MS s"
  by (induction cs arbitrary: s; simp add: end_connection_def timer_delay_def)+

lemma after_drain_fields:
  "server_isShuttingDown (after_drain b s) = server_isShuttingDown s"
  "server_connections (after_drain b s) = server_connections s"
  "\<not> server_listening (after_drain b s)"
  "health_isReady (after_drain b s) = health_isReady s"
  "wtimers (after_drain b s) =
     wtimers s @ [(wclock s + timer_delay (shutdownTimeout (WORKER_SHUTDOWN_TIMEOUT_MS s)), ForceShutdownTimer)]
       @ map (\<lambda>c. (wclock s + 5000, DestroyTimer c)) (server_connections s)
       @ [(wclock s + 100, CheckConnections)]"
  "wtrace (after_drain b s) = wtrace s @ [ServerClose] @ map ConnEnd (server_connections s) @ (if b then [WExit 1] else [])"
  "wexited (after_drain b s) = (if b then Some 1 else wexited s)"
  "wclock (after_drain b s) = wclock s"
  "DRAIN_DELAY_MS (after_drain b s) = DRAIN_DELAY_MS s"
  "WORKER_SHUTDOWN_TIMEOUT_MS (after_drain b s) = WORKER_SHUTDOWN_TIMEOUT_MS s"
  by (simp_all add: after_drain_def Let_def timer_delay_def)

lemma forceShutdownTimer_fields [simp]:
  "server_isShuttingDown (forceShutdownTimer s) = server_isShuttingDown s"
  "server_connections (forceShutdownTimer s) = server_connections s"
  "health_isReady (forceShutdownTimer s) = health_isReady s"
  "wtimers (forceShutdownTimer s) = wtimers s"
  "wtrace (forceShutdownTimer s) = wtrace s @ [WLog Error ''Forced shutdown due to timeout'', WExit 1]"
  "wexited (forceShutdownTimer s) = Some 1"
  "wclock (forceShutdownTimer s) = wclock s"
  by (simp_all add: forceShutdownTimer_def)

lemma destroyTimer_fields [simp]:
  "server_isShuttingDown (destroyTimer c s) = server_isShuttingDown s"
  "health_isReady (destroyTimer c s) = health_isReady s"
  "wtimers (destroyTimer c s) = wtimers s"
  "wexited (destroyTimer c s) = wexited s"
  "wclock (destroyTimer c s) = wclock s"
  "DRAIN_DELAY_MS (destroyTimer c s) = DRAIN_DELAY_MS s"
  "WORKER_SHUTDOWN_TIMEOUT_MS (destroyTimer c s) = WORKER_SHUTDOWN_TIMEOUT_MS s"
  by (simp_all add: destroyTimer_def)

lemma checkConnections_fields [simp]:
  "server_isShuttingDown (checkConnections s) = server_isShuttingDown s"
  "server_connections (checkConnections s) = server_connections s"
  "health_isReady (checkConnections s) = health_isReady s"
  "wexited (checkConnections s) = (if server_connections s = [] then Some 0 else wexited s)"
  "wclock (checkConnections s) = wclock s"
  "forced_count (wtrace (checkConnections s)) = forced_count (wtrace s)"
  "DRAIN_DELAY_MS (checkConnections s) = DRAIN_DELAY_MS s"
  "WORKER_SHUTDOWN_TIMEOUT_MS (checkConnections s) = WORKER_SHUTDOWN_TIMEOUT_MS s"
  "server_connections s \<noteq> [] \<Longrightarrow> wtimers (checkConnections s) = wtimers s @ [(wclock s + 100, CheckConnections)]"
  by (simp_all add: checkConnections_def timer_delay_def)

lemma timer_delay_pos: "1 \<le> timer_delay d"
  by (simp add: timer_delay_def)

lemma shutdown_inv_env:
  assumes inv: "shutdown_inv D F n s" and ok: "wlabel_ok s (WEnv t e)"
  shows "shutdown_inv D F n (worker_step s (WEnv t e))"
proof (cases "wexited s")
  case (Some c)
  then show ?thesis using inv by simp
next
  case None
  define s' where "s' = wemit (WObserved t e) (s\<lparr>wclock := t\<rparr>)"
  have sd: "server_isShuttingDown s" using inv by (simp add: shutdown_inv_def)
  have s': "server_isShuttingDown s'" "wexited s' = None" "wtimers s' = wtimers s" "wclock s' = t"
    "forced_count (wtrace s') = forced_count (wtrace s)"
    "WORKER_SHUTDOWN_TIMEOUT_MS s' = WORKER_SHUTDOWN_TIMEOUT_MS s"
    using sd None by (simp_all add: s'_def)
  note d = wdispatch_shutting_down[OF s'(1,2), of e]
  have step: "worker_step s (WEnv t e) = wdispatch e s'"
    using None by (simp add: s'_def)
  have tm: "wclock s \<le> t" "list_all (\<lambda>(due, k). t \<le> due) (wtimers s)"
    using ok by simp_all
  have ph: "(wtimers s = [(D, DrainDelay False)]
                  \<and> F = D + timer_delay (shutdownTimeout (WORKER_SHUTDOWN_TIMEOUT_MS s))
                  \<and> forced_count (wtrace s) = n)
                \<or> ((F, ForceShutdownTimer) \<in> set (wtimers s) \<and> D \<le> wclock s
                    \<and> \<not> list_ex is_drain_delay (wtimers s))"
    and DF: "D \<le> F" and fc: "forced_count (wtrace s) \<noteq> n \<longrightarrow> D \<le> wclock s"
    using inv None by (simp_all add: shutdown_inv_def)
  have tF: "t \<le> F"
    using ph tm(2) DF by (auto simp: list_all_iff)
  show ?thesis
    unfolding step shutdown_inv_def
    using d s' tm ph DF fc tF
    by (auto simp: list_all_iff)
qed

lemma remove1_keeps: "x \<in> set xs \<Longrightarrow> x \<noteq> y \<Longrightarrow> x \<in> set (remove1 y xs)"
  by simp

lemma list_ex_remove1: "\<not> list_ex P xs \<Longrightarrow> \<not> list_ex P (remove1 y xs)"
  by (auto simp: list_ex_iff dest: notin_set_remove1)

lemma shutdown_inv_tick:
  assumes inv: "shutdown_inv D F n s"
  shows "shutdown_inv D F n (worker_step s WTick)"
proof (cases "wexited s")
  case (Some c)
  then show ?thesis using inv by simp
next
  case None
  have sd: "server_isShuttingDown s" and DF: "D \<le> F"
    and fc: "forced_count (wtrace s) \<noteq> n \<longrightarrow> D \<le> wclock s"
    and la: "list_all (\<lambda>(due, k). wclock s \<le> due) (wtimers s)"
    and ph: "(wtimers s = [(D, DrainDelay False)]
                  \<and> F = D + timer_delay (shutdownTimeout (WORKER_SHUTDOWN_TIMEOUT_MS s))
                  \<and> forced_count (wtrace s) = n)
                \<or> ((F, ForceShutdownTimer) \<in> set (wtimers s) \<and> D \<le> wclock s
                    \<and> \<not> list_ex is_drain_delay (wtimers s))"
    using inv None by (simp_all add: shutdown_inv_def)
  from ph show ?thesis
  proof
    assume dr: "wtimers s = [(D, DrainDelay False)]
                  \<and> F = D + timer_delay (shutdownTimeout (WORKER_SHUTDOWN_TIMEOUT_MS s))
                  \<and> forced_count (wtrace s) = n"
    define s' where "s' = wemit (WFired D (DrainDelay False)) (s\<lparr>wclock := D, wtimers := []\<rparr>)"
    have step: "worker_step s WTick = after_drain False s'"
      using None dr by (simp add: s'_def)
    have s': "server_isShuttingDown s'" "wexited s' = None" "wtimers s' = []" "wclock s' = D"
      "WORKER_SHUTDOWN_TIMEOUT_MS s' = WORKER_SHUTDOWN_TIMEOUT_MS s"
      using sd None by (simp_all add: s'_def)
    show ?thesis
      unfolding step shutdown_inv_def
      using s' dr DF timer_delay_pos[of "shutdownTimeout (WORKER_SHUTDOWN_TIMEOUT_MS s)"]
      by (simp add: after_drain_fields list_all_iff list_ex_iff image_iff)
  next
    assume cl: "(F, ForceShutdownTimer) \<in> set (wtimers s) \<and> D \<le> wclock s
                    \<and> \<not> list_ex is_drain_delay (wtimers s)"
    then have ne: "wtimers s \<noteq> []" by auto
    then obtain due k where nt: "next_timer (wtimers s) = Some (due, k)"
      by (cases "next_timer (wtimers s)") (auto simp: next_timer_None)
    note m = next_timer_min[OF nt]
    have dueF: "due \<le> F" using m cl by auto
    have cdue: "wclock s \<le> due" using m la by (auto simp: list_all_iff)
    define s' where "s' = wemit (WFired due k) (s\<lparr>wclock := due, wtimers := remove1 (due, k) (wtimers s)\<rparr>)"
    have step: "worker_step s WTick = wrun_timer k s'"
      using None nt by (simp add: s'_def)
    have s': "server_isShuttingDown s'" "wexited s' = None" "wtimers s' = remove1 (due, k) (wtimers s)"
      "wclock s' = due" "forced_count (wtrace s') = forced_count (wtrace s)"
      "server_connections s' = server_connections s"
      using sd None by (simp_all add: s'_def)
    have rest: "list_all (\<lambda>(d, k'). due \<le> d) (remove1 (due, k) (wtimers s))"
      using m by (auto simp: list_all_iff dest: notin_set_remove1)
    have nodr: "\<not> list_ex is_drain_delay (remove1 (due, k) (wtimers s))"
      using cl by (simp add: list_ex_remove1)
    show ?thesis
    proof (cases k)
      case (DrainDelay b)
      then have "(due, DrainDelay b) \<in> set (wtimers s)" "is_drain_delay (due, DrainDelay b)"
        using m by simp_all
      then have "list_ex is_drain_delay (wtimers s)" unfolding list_ex_iff by blast
      with cl show ?thesis by simp
    next
      case ForceShutdownTimer
      show ?thesis
        unfolding step shutdown_inv_def using ForceShutdownTimer s' dueF DF cl cdue fc
        by simp
    next
      case (DestroyTimer c)
      have "(F, ForceShutdownTimer) \<in> set (remove1 (due, k) (wtimers s))"
        using cl DestroyTimer by (intro remove1_keeps) auto
      then show ?thesis
        unfolding step shutdown_inv_def using DestroyTimer s' dueF DF cl cdue fc rest nodr
        by (auto simp: destroyTimer_def)
    next
      case CheckConnections
      have "(F, ForceShutdownTimer) \<in> set (remove1 (due, k) (wtimers s))"
        using cl CheckConnections by (intro remove1_keeps) auto
      then show ?thesis
        unfolding step shutdown_inv_def using CheckConnections s' dueF DF cl cdue fc rest nodr
        by (auto simp: list_all_iff list_ex_iff)
    qed
  qed
qed

lemma shutdown_inv_step:
  "shutdown_inv D F n s \<Longrightarrow> wlabel_ok s l \<Longrightarrow> shutdown_inv D F n (worker_step s l)"
  by (cases l) (auto intro: shutdown_inv_env shutdown_inv_tick simp del: worker_step.simps wlabel_ok.simps)

lemma shutdown_inv_run:
  "shutdown_inv D F n s \<Longrightarrow> wrun_ok s ls \<Longrightarrow> shutdown_inv D F n (worker_run s ls)"
  unfolding worker_run_def
proof (induction ls arbitrary: s)
  case Nil
  then show ?case by simp
next
  case (Cons l ls)
  from Cons.prems have "shutdown_inv D F n (worker_step s l)" "wrun_ok (worker_step s l) ls"
    by (auto intro: shutdown_inv_step simp del: worker_step.simps wlabel_ok.simps)
  then show ?case using Cons.IH by simp
qed

lemma shutdown_request_step:
  assumes run: "\<not> server_isShuttingDown s0" "wexited s0 = None"
    and e: "e = Sigterm \<or> e = Sigint \<or> e = ShutdownMessage"
  shows "worker_step s0 (WEnv t0 e) =
           server_gracefulShutdown (shutdown_request_name e) False
             ((if e = ShutdownMessage then wlogger Info ''Worker received shutdown signal'' else (\<lambda>s. s))
                (wemit (WObserved t0 e) (s0\<lparr>wclock := t0\<rparr>)))"
  using run e by auto

lemma shutdown_inv_established:
  assumes run: "\<not> server_isShuttingDown s0" "wexited s0 = None" "wtimers s0 = []"
    and e: "e = Sigterm \<or> e = Sigint \<or> e = ShutdownMessage"
  shows "shutdown_inv (t0 + timer_delay (drainDelay (DRAIN_DELAY_MS s0)))
           (t0 + timer_delay (drainDelay (DRAIN_DELAY_MS s0))
               + timer_delay (shutdownTimeout (WORKER_SHUTDOWN_TIMEOUT_MS s0)))
           (forced_count (wtrace s0)) (worker_step s0 (WEnv t0 e))"
proof -
  define s' where "s' = (if e = ShutdownMessage then wlogger Info ''Worker received shutdown signal'' else (\<lambda>s. s))
                (wemit (WObserved t0 e) (s0\<lparr>wclock := t0\<rparr>))"
  have s': "\<not> server_isShuttingDown s'" "wexited s' = None" "wtimers s' = []" "wclock s' = t0"
    "forced_count (wtrace s') = forced_count (wtrace s0)" "DRAIN_DELAY_MS s' = DRAIN_DELAY_MS s0"
    "WORKER_SHUTDOWN_TIMEOUT_MS s' = WORKER_SHUTDOWN_TIMEOUT_MS s0"
    using run by (simp_all add: s'_def)
  note f = server_gracefulShutdown_first[OF s'(1), of "shutdown_request_name e" False]
  have step: "worker_step s0 (WEnv t0 e) = server_gracefulShutdown (shutdown_request_name e) False s'"
    unfolding s'_def by (rule shutdown_request_step[OF run(1,2) e])
  show ?thesis
    unfolding step shutdown_inv_def
    using f s' timer_delay_pos[of "drainDelay (DRAIN_DELAY_MS s0)"]
      timer_delay_pos[of "shutdownTimeout (WORKER_SHUTDOWN_TIMEOUT_MS s0)"]
    by simp
qed

lemma server_gracefulShutdown_ready:
  "\<not> health_isReady s \<Longrightarrow> \<not> health_isReady (server_gracefulShutdown sig b s)"
  by (simp add: server_gracefulShutdown_def Let_def)

lemma not_ready_step:
  assumes "\<not> health_isReady s" "\<not> is_listening_label l"
  shows "\<not> health_isReady (worker_step s l)"
proof (cases l)
  case (WEnv t e)
  then show ?thesis using assms
    by (cases e) (simp_all add: server_gracefulShutdown_ready uncaughtException_def split_beta)
next
  case WTick
  show ?thesis
  proof (cases "next_timer (wtimers s)")
    case None
    then show ?thesis using WTick assms by simp
  next
    case (Some a)
    obtain due k where a: "a = (due, k)" by (cases a)
    show ?thesis using WTick assms Some a
      by (cases k) (simp_all add: after_drain_fields)
  qed
qed

lemma not_ready_run:
  "\<not> health_isReady s \<Longrightarrow> \<not> list_ex is_listening_label ls \<Longrightarrow> \<not> health_isReady (worker_run s ls)"
  unfolding worker_run_def
proof (induction ls arbitrary: s)
  case Nil
  then show ?case by simp
next
  case (Cons l ls)
  from Cons.prems have "\<not> health_isReady (worker_step s l)" "\<not> list_ex is_listening_label ls"
    by (auto intro: not_ready_step[THEN notE] simp del: worker_step.simps)
  then show ?case using Cons.IH by simp
qed

lemma late_close_eval:
  "wrun_ok (one_connection_worker 200 250) late_close_run
   \<and> wexited (worker_run (one_connection_worker 200 250) (take 5 late_close_run)) = None
   \<and> server_connections (worker_run (one_connection_worker 200 250) (take 5 late_close_run)) = []
   \<and> wclock (worker_run (one_connection_worker 200 250) (take 5 late_close_run)) = 420
   \<and> wtimers (worker_run (one_connection_worker 200 250) (take 5 late_close_run))
       = [(450, ForceShutdownTimer), (5200, DestroyTimer 1), (500, CheckConnections)]
   \<and> wexited (worker_run (one_connection_worker 200 250) late_close_run) = Some 1
   \<and> wclock (worker_run (one_connection_worker 200 250) late_close_run) = 450"
  by (simp add: one_connection_worker_eval late_close_run_def worker_defs)

lemma poll_step:
  assumes "wexited s = None" "next_timer (wtimers s) = Some (x, k)"
  shows "k = CheckConnections \<longrightarrow> wexited (worker_step s WTick) = (if server_connections s = [] then Some 0 else None)"
    and "k = ForceShutdownTimer \<longrightarrow> wexited (worker_step s WTick) = Some 1"
  using assms by simp_all

lemma shutdown_bound:
  assumes run: "\<not> server_isShuttingDown s0" "wexited s0 = None" "wtimers s0 = []"
    and e: "e = Sigterm \<or> e = Sigint \<or> e = ShutdownMessage"
    and ok: "wrun_ok (worker_step s0 (WEnv t0 e)) ls"
  defines "D \<equiv> t0 + timer_delay (drainDelay (DRAIN_DELAY_MS s0))"
  defines "F \<equiv> D + timer_delay (shutdownTimeout (WORKER_SHUTDOWN_TIMEOUT_MS s0))"
  defines "s \<equiv> worker_run (worker_step s0 (WEnv t0 e)) ls"
  shows "t0 < D" "wclock s \<le> F" "forced_count (wtrace s) \<noteq> forced_count (wtrace s0) \<longrightarrow> D \<le> wclock s"
    "wexited s = None \<or> wexited s = Some 0 \<or> wexited s = Some 1"
    "wexited s = Some 0 \<longrightarrow> server_connections s = []"
    "wexited s = None \<longrightarrow> (\<exists>due k. next_timer (wtimers s) = Some (due, k) \<and> due \<le> F)"
proof -
  have inv: "shutdown_inv D F (forced_count (wtrace s0)) s"
    unfolding D_def F_def s_def
    by (rule shutdown_inv_run[OF shutdown_inv_established[OF run e] ok])
  show "t0 < D" unfolding D_def using timer_delay_pos[of "drainDelay (DRAIN_DELAY_MS s0)"] by simp
  show "wclock s \<le> F" using inv by (simp add: shutdown_inv_def)
  show "forced_count (wtrace s) \<noteq> forced_count (wtrace s0) \<longrightarrow> D \<le> wclock s"
    using inv by (simp add: shutdown_inv_def)
  show "wexited s = None \<or> wexited s = Some 0 \<or> wexited s = Some 1"
    using inv by (auto simp: shutdown_inv_def split: option.splits)
  show "wexited s = Some 0 \<longrightarrow> server_connections s = []"
    using inv by (auto simp: shutdown_inv_def split: option.splits)
  show "wexited s = None \<longrightarrow> (\<exists>due k. next_timer (wtimers s) = Some (due, k) \<and> due \<le> F)"
  proof
    assume n: "wexited s = None"
    then have ph: "(wtimers s = [(D, DrainDelay False)])
                \<or> ((F, ForceShutdownTimer) \<in> set (wtimers s))" and DF: "D \<le> F"
      using inv by (auto simp: shutdown_inv_def)
    then have "wtimers s \<noteq> []" by auto
    then obtain due k where nt: "next_timer (wtimers s) = Some (due, k)"
      by (cases "next_timer (wtimers s)") (auto simp: next_timer_None)
    have "due \<le> F" using next_timer_min[OF nt] ph DF by auto
    with nt show "\<exists>due k. next_timer (wtimers s) = Some (due, k) \<and> due \<le> F" by blast
  qed
qed

lemma shutdown_not_ready:
  assumes run: "\<not> server_isShuttingDown s0" "wexited s0 = None"
    and e: "e = Sigterm \<or> e = Sigint \<or> e = ShutdownMessage"
  shows "\<not> health_isReady (worker_step s0 (WEnv t0 e))"
    and "\<not> list_ex is_listening_label ls \<longrightarrow> \<not> health_isReady (worker_run (worker_step s0 (WEnv t0 e)) ls)"
    and "wtrace (worker_step s0 (WEnv t0 e)) = wtrace s0 @ [WObserved t0 e]
          @ (if e = ShutdownMessage then [WLog Info ''Worker received shutdown signal''] else [])
          @ [WLog Info (''Received '' @ shutdown_request_name e @ '', starting graceful shutdown...''),
             WLog Warn ''Application marked as not ready'',
             WLog Info (''Waiting '' @ show_int (drainDelay (DRAIN_DELAY_MS s0)) @ ''ms for load balancer drain...'')]"
proof -
  define s' where "s' = (if e = ShutdownMessage then wlogger Info ''Worker received shutdown signal'' else (\<lambda>s. s))
                (wemit (WObserved t0 e) (s0\<lparr>wclock := t0\<rparr>))"
  have s': "\<not> server_isShuttingDown s'" "DRAIN_DELAY_MS s' = DRAIN_DELAY_MS s0"
    "wtrace s' = wtrace s0 @ [WObserved t0 e] @ (if e = ShutdownMessage then [WLog Info ''Worker received shutdown signal''] else [])"
    using run by (simp_all add: s'_def)
  note f = server_gracefulShutdown_first[OF s'(1), of "shutdown_request_name e" False]
  have step: "worker_step s0 (WEnv t0 e) = server_gracefulShutdown (shutdown_request_name e) False s'"
    unfolding s'_def by (rule shutdown_request_step[OF run(1,2) e])
  show nr: "\<not> health_isReady (worker_step s0 (WEnv t0 e))" unfolding step using f by simp
  show "\<not> list_ex is_listening_label ls \<longrightarrow> \<not> health_isReady (worker_run (worker_step s0 (WEnv t0 e)) ls)"
    using not_ready_run[OF nr] by blast
  show "wtrace (worker_step s0 (WEnv t0 e)) = wtrace s0 @ [WObserved t0 e]
          @ (if e = ShutdownMessage then [WLog Info ''Worker received shutdown signal''] else [])
          @ [WLog Info (''Received '' @ shutdown_request_name e @ '', starting graceful shutdown...''),
             WLog Warn ''Application marked as not ready'',
             WLog Info (''Waiting '' @ show_int (drainDelay (DRAIN_DELAY_MS s0)) @ ''ms for load balancer drain...'')]"
    unfolding step using f s' by simp
qed

lemma wtrace_step_grows: "\<exists>rest. wtrace (worker_step s l) = wtrace s @ rest"
proof (cases l)
  case (WEnv t e)
  then show ?thesis
    by (cases e) (auto simp: server_gracefulShutdown_def uncaughtException_def Let_def split_beta)
next
  case WTick
  show ?thesis
  proof (cases "next_timer (wtimers s)")
    case None
    then show ?thesis using WTick by simp
  next
    case (Some a)
    obtain due k where a: "a = (due, k)" by (cases a)
    show ?thesis using WTick Some a
      by (cases k) (auto simp: after_drain_fields destroyTimer_def checkConnections_def)
  qed
qed

lemma wtrace_run_grows: "\<exists>rest. wtrace (worker_run s ls) = wtrace s @ rest"
  unfolding worker_run_def
proof (induction ls arbitrary: s)
  case Nil
  then show ?case by simp
next
  case (Cons l ls)
  obtain r1 where r1: "wtrace (worker_step s l) = wtrace s @ r1" using wtrace_step_grows by blast
  obtain r2 where r2: "wtrace (foldl worker_step (worker_step s l) ls) = wtrace (worker_step s l) @ r2"
    using Cons.IH by blast
  show ?case using r1 r2 by simp
qed

subsection \<open>The timers alone bring the worker to its exit\<close>

lemma firings_left_rearm:
  assumes "due \<le> F"
  shows "firings_left F (due + 100, CheckConnections) + 1 = firings_left F (due, CheckConnections)"
proof (cases "due + 100 \<le> F")
  case True
  then have "(F - due) div 100 \<ge> 1" by simp
  moreover have "(F - (due + 100)) div 100 = (F - due) div 100 - 1" by simp
  ultimately show ?thesis using True assms by (simp add: nat_diff_distrib)
next
  case False
  then have "(F - due) div 100 = 0" using assms by simp
  then show ?thesis using False assms by simp
qed

lemma firings_left_pos: "due \<le> F \<Longrightarrow> 0 < firings_left F (due, k)"
  by (cases k) simp_all

lemma sum_list_remove1:
  "x \<in> set xs \<Longrightarrow> sum_list (map f (remove1 x xs)) + f x = sum_list (map f xs)"
  for f :: "'a \<Rightarrow> nat"
  by (induction xs) auto

lemma closing_tick:
  assumes inv: "shutdown_inv D F n s" and ne: "wexited s = None"
    and cl: "(F, ForceShutdownTimer) \<in> set (wtimers s)" "\<not> list_ex is_drain_delay (wtimers s)"
  shows "wexited (worker_step s WTick) \<noteq> None
       \<or> (firings_bound F (worker_step s WTick) < firings_bound F s
          \<and> (F, ForceShutdownTimer) \<in> set (wtimers (worker_step s WTick))
          \<and> \<not> list_ex is_drain_delay (wtimers (worker_step s WTick)))"
proof -
  have "wtimers s \<noteq> []" using cl by auto
  then obtain due k where nt: "next_timer (wtimers s) = Some (due, k)"
    by (cases "next_timer (wtimers s)") (auto simp: next_timer_None)
  note m = next_timer_min[OF nt]
  have dueF: "due \<le> F" using m cl by auto
  define s' where "s' = wemit (WFired due k) (s\<lparr>wclock := due, wtimers := remove1 (due, k) (wtimers s)\<rparr>)"
  have step: "worker_step s WTick = wrun_timer k s'"
    using ne nt by (simp add: s'_def)
  have s': "wexited s' = None" "wtimers s' = remove1 (due, k) (wtimers s)"
    "wclock s' = due" "server_connections s' = server_connections s"
    using ne by (simp_all add: s'_def)
  have sum: "sum_list (map (firings_left F) (remove1 (due, k) (wtimers s))) + firings_left F (due, k)
               = firings_bound F s"
    unfolding firings_bound_def using m by (intro sum_list_remove1) simp
  have nodr: "\<not> list_ex is_drain_delay (remove1 (due, k) (wtimers s))"
    using cl by (simp add: list_ex_remove1)
  show ?thesis
  proof (cases k)
    case (DrainDelay b)
    then have "(due, DrainDelay b) \<in> set (wtimers s)" "is_drain_delay (due, DrainDelay b)"
      using m by simp_all
    then have "list_ex is_drain_delay (wtimers s)" unfolding list_ex_iff by blast
    with cl show ?thesis by simp
  next
    case ForceShutdownTimer
    then show ?thesis unfolding step by simp
  next
    case (DestroyTimer c)
    have f: "(F, ForceShutdownTimer) \<in> set (remove1 (due, k) (wtimers s))"
      using cl DestroyTimer by (intro remove1_keeps) auto
    have "firings_bound F (wrun_timer k s') < firings_bound F s"
      using sum firings_left_pos[OF dueF, of k] s' DestroyTimer
      by (simp add: firings_bound_def)
    then show ?thesis unfolding step using f nodr s' DestroyTimer by simp
  next
    case CheckConnections
    show ?thesis
    proof (cases "server_connections s = []")
      case True
      then show ?thesis unfolding step using CheckConnections s' by simp
    next
      case False
      have f: "(F, ForceShutdownTimer) \<in> set (remove1 (due, k) (wtimers s))"
        using cl CheckConnections by (intro remove1_keeps) auto
      have t: "wtimers (wrun_timer k s') = remove1 (due, k) (wtimers s) @ [(due + 100, CheckConnections)]"
        using False s' CheckConnections by simp
      have "firings_bound F (wrun_timer k s') + 1 = firings_bound F s"
        using sum firings_left_rearm[OF dueF] CheckConnections
        unfolding firings_bound_def t by simp
      then show ?thesis unfolding step using f nodr t by (auto simp: list_ex_iff)
    qed
  qed
qed

lemma closing_exits:
  assumes "shutdown_inv D F n s" "wexited s = None"
    "(F, ForceShutdownTimer) \<in> set (wtimers s)" "\<not> list_ex is_drain_delay (wtimers s)"
  shows "\<exists>c. wexited (worker_run s (replicate c WTick)) \<noteq> None"
  using assms
proof (induction "firings_bound F s" arbitrary: s rule: less_induct)
  case less
  from closing_tick[OF less.prems]
  consider "wexited (worker_step s WTick) \<noteq> None"
    | "wexited (worker_step s WTick) = None" "firings_bound F (worker_step s WTick) < firings_bound F s"
      "(F, ForceShutdownTimer) \<in> set (wtimers (worker_step s WTick))"
      "\<not> list_ex is_drain_delay (wtimers (worker_step s WTick))"
    by blast
  then show ?case
  proof cases
    case 1
    then have "wexited (worker_run s (replicate 1 WTick)) \<noteq> None"
      by (simp add: worker_run_def del: worker_step.simps)
    then show ?thesis by blast
  next
    case 2
    have inv': "shutdown_inv D F n (worker_step s WTick)"
      by (rule shutdown_inv_tick[OF less.prems(1)])
    from less.hyps[OF 2(2) inv' 2(1) 2(3) 2(4)]
    obtain c where "wexited (worker_run (worker_step s WTick) (replicate c WTick)) \<noteq> None" by blast
    then have "wexited (worker_run s (replicate (Suc c) WTick)) \<noteq> None"
      by (simp add: worker_run_def del: worker_step.simps)
    then show ?thesis by blast
  qed
qed

lemma shutdown_exits:
  assumes inv: "shutdown_inv D F n s"
  shows "\<exists>c. wexited (worker_run s (replicate c WTick)) \<noteq> None"
proof (cases "wexited s")
  case (Some x)
  then have "wexited (worker_run s (replicate 0 WTick)) \<noteq> None" by (simp add: worker_run_def)
  then show ?thesis by blast
next
  case None
  then have ph: "(wtimers s = [(D, DrainDelay False)])
                \<or> ((F, ForceShutdownTimer) \<in> set (wtimers s) \<and> \<not> list_ex is_drain_delay (wtimers s))"
    using inv by (auto simp: shutdown_inv_def)
  then show ?thesis
  proof
    assume "(F, ForceShutdownTimer) \<in> set (wtimers s) \<and> \<not> list_ex is_drain_delay (wtimers s)"
    then show ?thesis using closing_exits[OF inv None] by blast
  next
    assume dr: "wtimers s = [(D, DrainDelay False)]"
    define s1 where "s1 = worker_step s WTick"
    have inv1: "shutdown_inv D F n s1" unfolding s1_def by (rule shutdown_inv_tick[OF inv])
    have eq: "s1 = after_drain False (wemit (WFired D (DrainDelay False)) (s\<lparr>wclock := D, wtimers := []\<rparr>))"
      unfolding s1_def using None dr by simp
    have F: "F = D + timer_delay (shutdownTimeout (WORKER_SHUTDOWN_TIMEOUT_MS s))"
      using inv None dr by (auto simp: shutdown_inv_def)
    have n1: "wexited s1 = None" "(F, ForceShutdownTimer) \<in> set (wtimers s1)"
      "\<not> list_ex is_drain_delay (wtimers s1)"
      unfolding eq using None F by (auto simp: after_drain_fields list_ex_iff)
    from closing_exits[OF inv1 n1] obtain c where "wexited (worker_run s1 (replicate c WTick)) \<noteq> None"
      by blast
    then have "wexited (worker_run s (replicate (Suc c) WTick)) \<noteq> None"
      by (simp add: worker_run_def s1_def del: worker_step.simps)
    then show ?thesis by blast
  qed
qed

section \<open>Shutdown of the cluster: from the signal to the exit\<close>

lemma restartNext_timers [simp]:
  "timers (restartNext wids i s) = timers s"
  by (induction wids i s rule: restartNext.induct; subst restartNext.simps; simp add: Let_def split_beta)

lemma rollingRestart_timers [simp]: "timers (rollingRestart s) = timers s"
  by (simp add: rollingRestart_def Let_def)















subsection \<open>The timers alone bring the primary to its exit\<close>







lemma shutdown_reaches_exit:
  assumes run: "\<not> server_isShuttingDown s0" "wexited s0 = None" "wtimers s0 = []"
    and e: "e = Sigterm \<or> e = Sigint \<or> e = ShutdownMessage"
    and ok: "wrun_ok (worker_step s0 (WEnv t0 e)) ls"
  shows "\<exists>c. wexited (worker_run (worker_run (worker_step s0 (WEnv t0 e)) ls) (replicate c WTick)) \<noteq> None"
  by (rule shutdown_exits[OF shutdown_inv_run[OF shutdown_inv_established[OF run e] ok]])

section \<open>The primary's observations respect the order of a rolling restart\<close>

lemma monitor_run_append:
  "monitor_run m (xs @ ys) = (case monitor_run m xs of None \<Rightarrow> None | Some m' \<Rightarrow> monitor_run m' ys)"
  by (induction xs arbitrary: m) simp_all

lemma monitor_update_grows:
  "set (started m) \<subseteq> set (started (monitor_update m x))"
  "set (heard m) \<subseteq> set (heard (monitor_update m x))"
  "set (disconnected m) \<subseteq> set (disconnected (monitor_update m x))"
  "set (gone m) \<subseteq> set (gone (monitor_update m x))"
  by (cases "(m, x)" rule: monitor_update.cases; auto split: option.splits obs.splits level.splits)+

lemma monitor_update_prev [simp]: "prev (monitor_update m x) = Some x"
  by (cases "(m, x)" rule: monitor_update.cases; auto split: option.splits obs.splits level.splits)

lemma monitor_rel_update:
  assumes "monitor_rel m s"
  shows "monitor_rel (monitor_update m x) s"
  using assms monitor_update_grows[of m x]
  unfolding monitor_rel_def by (auto split: prod.splits)

lemma monitor_state_emit:
  assumes "monitor_state m s" "monitor_ok m x"
  shows "monitor_state (monitor_update m x) (emit x s)"
proof -
  have "monitor_rel (monitor_update m x) s" using assms(1) monitor_rel_update by (simp add: monitor_state_def)
  then have "monitor_rel (monitor_update m x) (emit x s)" by (simp add: monitor_rel_def)
  then show ?thesis using assms by (simp add: monitor_state_def monitor_run_append)
qed

lemma monitor_state_logger:
  assumes "monitor_state m s" "l = Info \<and> is_rolling_log msg \<longrightarrow> after_request_or_pause (prev m) msg"
  shows "monitor_state (monitor_update m (Log l msg)) (logger l msg s)"
  unfolding logger_def using assms by (intro monitor_state_emit) simp_all

lemma not_rolling_log [simp]:
  "\<not> is_rolling_log ''Worker died''"
  "\<not> is_rolling_log ''Restarting worker''"
  "\<not> is_rolling_log ''Worker online''"
  "\<not> is_rolling_log ''Worker listening''"
  "\<not> is_rolling_log ''Worker disconnected''"
  "\<not> is_rolling_log ''All workers exited, primary shutting down''"
  "\<not> is_rolling_log ''Received SIGUSR2, performing rolling restart''"
  "\<not> is_rolling_log ''Rolling restart complete''"
  "\<not> is_rolling_log ''Primary process started''"
  by (simp_all add: is_rolling_log_def)

lemma not_rolling_log_hd [simp]: "c \<noteq> CHR ''R'' \<Longrightarrow> \<not> is_rolling_log (c # xs)"
  by (simp add: is_rolling_log_def)

lemma monitor_state_plain_log:
  assumes "monitor_state m s" "l \<noteq> Info \<or> \<not> is_rolling_log msg"
  shows "monitor_state (monitor_update m (Log l msg)) (logger l msg s)"
  using assms by (intro monitor_state_logger) auto

text \<open>Changes of the state that leave the trace and the closures alone.\<close>

lemma monitor_state_cong:
  assumes "monitor_state m s" "trace s' = trace s" "onListening s' = onListening s"
    "onExit s' = onExit s" "timers s' = timers s"
  shows "monitor_state m s'"
  using assms by (simp add: monitor_state_def monitor_rel_def)

lemma monitor_state_set_timer:
  assumes "monitor_state m s" "\<forall>wids j. k = RestartNextTimer wids j \<longrightarrow>
          0 < j \<and> j \<le> length wids \<and> wids ! (j - 1) \<in> set (gone m)"
  shows "monitor_state m (set_timer d k s)"
  using assms by (auto simp: monitor_state_def monitor_rel_def)

lemma monitor_state_clear_timer:
  assumes "monitor_state m s"
  shows "monitor_state m (clear_timer k s)"
  using assms by (auto simp: monitor_state_def monitor_rel_def)

lemma monitor_state_cluster_fork:
  assumes "monitor_state m s"
  shows "monitor_state (monitor_update m (Fork (ids s + 1))) (snd (cluster_fork s))"
proof -
  have "monitor_state m (s\<lparr>ids := ids s + 1, workers := workers s @ [ids s + 1]\<rparr>)"
    using assms by (rule monitor_state_cong) simp_all
  from monitor_state_emit[OF this, of "Fork (ids s + 1)"]
  show ?thesis by (simp add: cluster_fork_def Let_def)
qed

lemma monitor_state_forkWorker:
  assumes "monitor_state m s"
  shows "monitor_state (monitor_update m (Fork (ids s + 1))) (snd (forkWorker s))"
proof -
  note a = monitor_state_cluster_fork[OF assms]
  show ?thesis
    using a unfolding monitor_state_def monitor_rel_def
    by (auto simp: forkWorker_def Let_def split_beta set_timer_def)
qed

lemma monitored_on_exit:
  assumes "monitor_state m s"
  shows "monitored (on_exit w code sig s)"
proof -
  note a = monitor_state_plain_log[OF assms, of Warn "''Worker died''"]
  show ?thesis
  proof (cases "isShuttingDown s")
    case True
    then show ?thesis using a by (auto simp: on_exit_shutting_down monitored_def)
  next
    case False
    show ?thesis
    proof (cases "maxRestartsPerMinute s \<le> length (recentRestarts (clock s) (restarts_of s w))")
      case True
      from monitor_state_plain_log[OF a, of Error] show ?thesis
        using False True by (auto simp: on_exit_denied monitored_def)
    next
      case False2: False
      let ?s1 = "(logger Warn ''Worker died'' s)\<lparr>workerRestarts :=
          AList.update w (recentRestarts (clock s) (restarts_of s w) @ [clock s]) (workerRestarts s)\<rparr>"
      have "monitor_state (monitor_update m (Log Warn ''Worker died'')) ?s1"
        using a by (rule monitor_state_cong) simp_all
      from monitor_state_forkWorker[OF monitor_state_plain_log[OF this, of Info "''Restarting worker''"]]
      show ?thesis using False False2 by (auto simp: on_exit_allowed monitored_def)
    qed
  qed
qed

lemma nth_in_drop:
  assumes "j \<le> i" "i < length xs"
  shows "xs ! i \<in> set (drop j xs)"
proof -
  have "i - j < length (drop j xs)" using assms by simp
  then have "drop j xs ! (i - j) \<in> set (drop j xs)" by (rule nth_mem)
  moreover have "drop j xs ! (i - j) = xs ! i" using assms by simp
  ultimately show ?thesis by simp
qed

lemma restart_position_log:
  assumes "restart_position p wids i" "i < length wids"
  shows "after_request_or_pause p (rolling_log (wids ! i))"
proof -
  from assms(1) consider "p = Some (Log Info ''Received SIGUSR2, performing rolling restart'')"
    | t j where "p = Some (Fired t (RestartNextTimer wids j))" "j \<le> i"
    unfolding restart_position_def by blast
  then show ?thesis
  proof cases
    case 1
    then show ?thesis by simp
  next
    case 2
    have "wids ! i \<in> set (drop j wids)" using 2(2) assms(2) by (rule nth_in_drop)
    then show ?thesis unfolding 2(1) by (simp add: list_ex_iff) blast
  qed
qed

lemma restart_position_Suc: "restart_position p wids i \<Longrightarrow> restart_position p wids (i + 1)"
  by (auto simp: restart_position_def)

lemma monitored_restartNext:
  assumes "monitor_state m s" "restart_position (prev m) wids i"
  shows "monitored (restartNext wids i s)"
  using assms
proof (induction wids i s rule: restartNext.induct)
  case (1 workerIds index s)
  show ?case
  proof (cases "length workerIds \<le> index")
    case True
    from monitor_state_plain_log[OF "1.prems"(1), of Info "''Rolling restart complete''"]
    show ?thesis using True by (subst restartNext.simps) (auto simp: monitored_def)
  next
    case False
    show ?thesis
    proof (cases "workerIds ! index \<in> set (workers s)")
      case gone: False
      have "monitored (restartNext workerIds (index + 1) s)"
        using "1.IH"[OF False _ gone "1.prems"(1) restart_position_Suc[OF "1.prems"(2)]] by simp
      then show ?thesis using False gone by (subst restartNext.simps) (simp add: Let_def)
    next
      case True
      define w where "w = workerIds ! index"
      define m1 where "m1 = monitor_update m (Log Info (rolling_log w))"
      define s1 where "s1 = logger Info (''Restarting worker '' @ show_nat w) s"
      have a: "monitor_state m1 s1"
        unfolding m1_def s1_def rolling_log_def[symmetric]
        using "1.prems"(1) restart_position_log[OF "1.prems"(2), of ] False
        by (intro monitor_state_logger) (simp_all add: w_def)
      have p: "prev m1 = Some (Log Info (rolling_log w))" by (simp add: m1_def)
      define m2 where "m2 = monitor_update m1 (Fork (ids s1 + 1))"
      have b: "monitor_state m2 (snd (cluster_fork s1))"
        unfolding m2_def by (rule monitor_state_cluster_fork[OF a])
      have st: "(ids s1 + 1, rolling_log w) \<in> set (started m2)"
        unfolding m2_def using p by simp
      have eq: "restartNext workerIds index s
                  = (snd (cluster_fork s1))\<lparr>onListening := onListening (snd (cluster_fork s1))
                        @ [(ids s1 + 1, (workerIds, index, w))]\<rparr>"
        using False True by (subst restartNext.simps) (simp add: Let_def split_beta s1_def w_def)
      have "monitor_state m2 (restartNext workerIds index s)"
        unfolding eq using b st False
        by (auto simp: monitor_state_def monitor_rel_def w_def)
      then show ?thesis by (auto simp: monitored_def)
    qed
  qed
qed

lemma monitored_rollingRestart:
  assumes "monitor_state m s"
  shows "monitored (rollingRestart s)"
proof -
  note a = monitor_state_plain_log[OF assms, of Info "''Received SIGUSR2, performing rolling restart''"]
  have "restart_position (prev (monitor_update m (Log Info ''Received SIGUSR2, performing rolling restart'')))
          (workers (logger Info ''Received SIGUSR2, performing rolling restart'' s)) 0"
    by (simp add: restart_position_def)
  from monitored_restartNext[OF a this] show ?thesis
    by (simp add: rollingRestart_def Let_def)
qed

lemma monitor_state_newWorker_listening:
  assumes "monitor_state m s" "(n, wids, i, old) \<in> set (onListening s)" "n \<in> set (heard m)"
  shows "monitor_state (monitor_update m (Disconnect old)) (newWorker_listening (wids, i, old) s)"
proof -
  have r: "(n, rolling_log old) \<in> set (started m)" "i < length wids" "old = wids ! i"
    using assms(1,2) by (auto simp: monitor_state_def monitor_rel_def)
  have ok: "monitor_ok m (Disconnect old)"
    using r(1) assms(3) by (auto simp: list_ex_iff)
  note a = monitor_state_emit[OF assms(1) ok]
  show ?thesis
    using a r(2,3) unfolding monitor_state_def monitor_rel_def
    by (auto simp: newWorker_listening_def Let_def)
qed

lemma monitored_fold_newWorker_listening:
  assumes "monitor_state m s" "\<forall>l \<in> set ls. (n, l) \<in> set (onListening s)" "n \<in> set (heard m)"
  shows "monitored (fold newWorker_listening ls s)"
  using assms
proof (induction ls arbitrary: m s)
  case Nil
  then show ?case by (auto simp: monitored_def)
next
  case (Cons l ls)
  obtain wids i old where l: "l = (wids, i, old)" by (cases l)
  have mem: "(n, wids, i, old) \<in> set (onListening s)" using Cons.prems(2) l by simp
  note a = monitor_state_newWorker_listening[OF Cons.prems(1) mem Cons.prems(3)]
  have keep: "\<forall>l' \<in> set ls. (n, l') \<in> set (onListening (newWorker_listening (wids, i, old) s))"
    using Cons.prems(2) by (simp add: newWorker_listening_def Let_def)
  have h: "n \<in> set (heard (monitor_update m (Disconnect old)))"
    using Cons.prems(3) by simp
  from Cons.IH[OF a keep h] show ?case using l by simp
qed

lemma listeners_for_mem: "l \<in> set (listeners_for w ls) \<Longrightarrow> (w, l) \<in> set ls"
  by (auto simp: listeners_for_def)

lemma monitor_state_worker_exit_listener:
  assumes "monitor_state m s" "(w, l) \<in> set (onExit s)" "w \<in> set (disconnected m) \<longrightarrow> w \<in> set (gone m)"
  shows "monitor_state m (worker_exit_listener w l s)"
proof (cases l)
  case ClearHeartbeat
  then show ?thesis using assms(1) by (simp add: monitor_state_clear_timer)
next
  case (RestartNextAfterExit wids i)
  then have "w \<in> set (disconnected m)" "i < length wids" "w = wids ! i"
    using assms(1,2) by (auto simp: monitor_state_def monitor_rel_def)
  then show ?thesis
    using RestartNextAfterExit assms(1,3) by (auto intro!: monitor_state_set_timer)
qed

lemma monitor_state_fold_worker_exit_listener:
  assumes "monitor_state m s" "\<forall>l \<in> set ls. (w, l) \<in> set (onExit s)"
    "w \<in> set (disconnected m) \<longrightarrow> w \<in> set (gone m)"
  shows "monitor_state m (fold (worker_exit_listener w) ls s)"
  using assms
proof (induction ls arbitrary: s)
  case Nil
  then show ?case by simp
next
  case (Cons l ls)
  have a: "monitor_state m (worker_exit_listener w l s)"
    using Cons.prems by (intro monitor_state_worker_exit_listener) simp_all
  have "onExit (worker_exit_listener w l s) = onExit s" by (cases l) simp_all
  then have keep: "\<forall>l' \<in> set ls. (w, l') \<in> set (onExit (worker_exit_listener w l s))"
    using Cons.prems(2) by simp
  from Cons.IH[OF a keep Cons.prems(3)] show ?case by simp
qed

lemma monitor_state_fold_emit:
  assumes "monitor_state m s" "\<forall>x \<in> set xs. \<forall>m'. monitor_ok m' (h x)"
  shows "\<exists>m'. monitor_state m' (fold (\<lambda>w. emit (h w)) xs s)"
  using assms
proof (induction xs arbitrary: m s)
  case Nil
  then show ?case by auto
next
  case (Cons x xs)
  have "monitor_state (monitor_update m (h x)) (emit (h x) s)"
    using Cons.prems by (intro monitor_state_emit) simp_all
  from Cons.IH[OF this] Cons.prems(2) show ?case by simp
qed

lemma monitored_gracefulShutdown:
  assumes "monitor_state m s"
  shows "monitored (gracefulShutdown g s)"
proof (cases "isShuttingDown s")
  case True
  then show ?thesis using assms by (auto simp: gracefulShutdown_def monitored_def)
next
  case False
  define s1 where "s1 = s\<lparr>isShuttingDown := True\<rparr>"
  define msg where "msg = ''Primary received '' @ signal_name g @ '', initiating graceful shutdown''"
  have a: "monitor_state m s1" unfolding s1_def using assms by (rule monitor_state_cong) simp_all
  have nr: "Info \<noteq> Info \<or> \<not> is_rolling_log msg" unfolding msg_def by simp
  obtain m3 where c: "monitor_state m3 (fold (\<lambda>w. emit (SendShutdown w)) (workers (logger Info msg s1)) (logger Info msg s1))"
    using monitor_state_fold_emit[OF monitor_state_plain_log[OF a nr], of "workers (logger Info msg s1)" SendShutdown]
    by auto
  have "monitor_state m3 (gracefulShutdown g s)"
    using False monitor_state_set_timer[OF monitor_state_set_timer[OF c, of CheckInterval 500], of ForceExit]
    by (simp add: gracefulShutdown_def Let_def s1_def msg_def)
  then show ?thesis by (auto simp: monitored_def)
qed

lemma monitored_dispatch:
  assumes "monitor_state m s"
  shows "monitored (dispatch e (emit (Observed t e) s))"
proof -
  define m1 where "m1 = monitor_update m (Observed t e)"
  define s1 where "s1 = emit (Observed t e) s"
  have a: "monitor_state m1 s1"
    unfolding m1_def s1_def by (rule monitor_state_emit[OF assms]) simp
  show ?thesis
    unfolding s1_def[symmetric]
  proof (cases e)
    case (WorkerExit w code sig)
    define s2 where "s2 = s1\<lparr>workers := filter (\<lambda>w'. w' \<noteq> w) (workers s1)\<rparr>"
    have b: "monitor_state m1 s2" unfolding s2_def using a by (rule monitor_state_cong) simp_all
    have g: "w \<in> set (disconnected m1) \<longrightarrow> w \<in> set (gone m1)"
      unfolding m1_def WorkerExit by simp
    have c: "monitor_state m1 (fold (worker_exit_listener w) (listeners_for w (onExit s2)) s2)"
      using b g by (intro monitor_state_fold_worker_exit_listener) (auto dest: listeners_for_mem)
    show "monitored (dispatch e s1)"
      using monitored_on_exit[OF c, of w code sig] WorkerExit by (simp add: Let_def s2_def)
  next
    case (WorkerOnline w)
    from monitor_state_plain_log[OF a, of Info "''Worker online''"]
    show "monitored (dispatch e s1)" using WorkerOnline by (auto simp: monitored_def)
  next
    case (WorkerListening n)
    have "monitored (fold newWorker_listening (listeners_for n (onListening s1)) s1)"
    proof (cases "listeners_for n (onListening s1)")
      case Nil
      then show ?thesis using a by (auto simp: monitored_def)
    next
      case (Cons l ls)
      obtain wids i old where l: "l = (wids, i, old)" by (cases l)
      have "(n, wids, i, old) \<in> set (onListening s)"
        using Cons l listeners_for_mem[of l n "onListening s1"] by (simp add: s1_def)
      then have "(n, rolling_log old) \<in> set (started m)"
        using assms by (auto simp: monitor_state_def monitor_rel_def)
      then have "n \<in> fst ` set (started m)" by force
      then have h: "n \<in> set (heard m1)" unfolding m1_def WorkerListening by simp
      show ?thesis
        using a h by (intro monitored_fold_newWorker_listening) (auto dest: listeners_for_mem)
    qed
    then obtain m2 where "monitor_state m2 (fold newWorker_listening (listeners_for n (onListening s1)) s1)"
      by (auto simp: monitored_def)
    from monitor_state_plain_log[OF this, of Info "''Worker listening''"]
    show "monitored (dispatch e s1)" using WorkerListening by (auto simp: monitored_def Let_def)
  next
    case (WorkerDisconnect w)
    from monitor_state_plain_log[OF a, of Warn "''Worker disconnected''"]
    show "monitored (dispatch e s1)" using WorkerDisconnect by (auto simp: monitored_def)
  next
    case (WorkerMessage w msg)
    define s2 where "s2 = (if msg = Heartbeat \<and> map_of (lastHeartbeat s1) w \<noteq> None
                then s1\<lparr>lastHeartbeat := AList.update w (clock s1) (lastHeartbeat s1)\<rparr> else s1)"
    have b: "monitor_state m1 s2" unfolding s2_def using a by (auto intro: monitor_state_cong)
    have nr: "Info \<noteq> Info \<or> \<not> is_rolling_log (''Message from worker '' @ show_nat w)" by simp
    from monitor_state_plain_log[OF b nr]
    have c: "monitored (logger Info (''Message from worker '' @ show_nat w) s2)"
      unfolding monitored_def by blast
    have d: "monitored s2" using b unfolding monitored_def by blast
    have "dispatch e s1 = (if msg = LogMessage then logger Info (''Message from worker '' @ show_nat w) s2 else s2)"
      unfolding WorkerMessage s2_def by (simp add: Let_def)
    then show "monitored (dispatch e s1)" using c d by simp
  next
    case (Signalled g)
    show "monitored (dispatch e s1)"
    proof (cases g)
      case SIGUSR2
      then show ?thesis using Signalled monitored_rollingRestart[OF a] by simp
    next
      case SIGTERM
      then show ?thesis using Signalled monitored_gracefulShutdown[OF a] by simp
    next
      case SIGINT
      then show ?thesis using Signalled monitored_gracefulShutdown[OF a] by simp
    qed
  qed
qed

lemma monitored_run_timer:
  assumes "monitor_state m s" "(due, k) \<in> set (timers s)"
  shows "monitored (run_timer k (emit (Fired due k) (s\<lparr>clock := due, timers := remove1 (due, k) (timers s)\<rparr>)))"
proof -
  define s0 where "s0 = s\<lparr>clock := due, timers := remove1 (due, k) (timers s)\<rparr>"
  define m1 where "m1 = monitor_update m (Fired due k)"
  have a0: "monitor_state m s0"
    using assms(1) unfolding s0_def monitor_state_def monitor_rel_def
    by (auto dest!: subsetD[OF set_remove1_subset])
  have ok: "monitor_ok m (Fired due k)"
  proof (cases k)
    case (RestartNextTimer wids j)
    then show ?thesis using assms by (auto simp: monitor_state_def monitor_rel_def)
  qed simp_all
  have a: "monitor_state m1 (emit (Fired due k) s0)"
    unfolding m1_def by (rule monitor_state_emit[OF a0 ok])
  show ?thesis
    unfolding s0_def[symmetric]
  proof (cases k)
    case (HeartbeatCheck w)
    define s1 where "s1 = emit (Fired due k) s0"
    define msg where "msg = ''Worker '' @ show_nat w @ '' heartbeat timeout, killing''"
    have b: "monitor_state m1 s1" using a by (simp add: s1_def)
    have "monitor_state (monitor_update m1 (Log Error msg)) (logger Error msg s1)"
      using b by (intro monitor_state_plain_log) simp_all
    from monitor_state_emit[OF this, of "Kill w"]
    have c: "monitored (set_timer 30000 (HeartbeatCheck w) (emit (Kill w) (logger Error msg s1)))"
      unfolding monitored_def by (auto intro!: monitor_state_set_timer)
    have d: "monitored (set_timer 30000 (HeartbeatCheck w) s1)"
      using b unfolding monitored_def by (auto intro!: monitor_state_set_timer)
    have "run_timer k s1 = (if 60000 < clock s1 - (case map_of (lastHeartbeat s1) w of None \<Rightarrow> clock s1 | Some t \<Rightarrow> t)
            then set_timer 30000 (HeartbeatCheck w) (emit (Kill w) (logger Error msg s1))
            else set_timer 30000 (HeartbeatCheck w) s1)"
      unfolding HeartbeatCheck by (simp add: heartbeatInterval_def Let_def msg_def)
    then show "monitored (run_timer k (emit (Fired due k) s0))"
      using c d unfolding s1_def[symmetric] by presburger
  next
    case CheckInterval
    define s1 where "s1 = emit (Fired due k) s0"
    have b: "monitor_state m1 s1" using a by (simp add: s1_def)
    have "monitor_state (monitor_update m1 (Log Info ''All workers exited, primary shutting down''))
            (logger Info ''All workers exited, primary shutting down'' (clear_timer CheckInterval s1))"
      using b by (intro monitor_state_plain_log monitor_state_clear_timer) simp_all
    from monitor_state_emit[OF this, of "ProcessExit 0"]
    have c: "monitored (process_exit 0 (logger Info ''All workers exited, primary shutting down'' (clear_timer CheckInterval s1)))"
      unfolding monitored_def monitor_state_def monitor_rel_def
      by (auto simp: process_exit_def emit_def logger_def clear_timer_def)
    have d: "monitored (set_timer 500 CheckInterval s1)"
      using b unfolding monitored_def by (auto intro!: monitor_state_set_timer)
    show "monitored (run_timer k (emit (Fired due k) s0))"
      using c d by (simp add: s1_def CheckInterval checkInterval_def)
  next
    case ForceExit
    define s1 where "s1 = emit (Fired due k) s0"
    have b: "monitor_state m1 s1" using a by (simp add: s1_def)
    have "monitor_state (monitor_update m1 (Log Error ''Shutdown timeout reached, forcing exit''))
            (logger Error ''Shutdown timeout reached, forcing exit'' s1)"
      using b by (intro monitor_state_plain_log) simp_all
    from monitor_state_emit[OF this, of "ProcessExit 1"]
    have c: "monitored (process_exit 1 (logger Error ''Shutdown timeout reached, forcing exit'' s1))"
      unfolding monitored_def monitor_state_def monitor_rel_def
      by (auto simp: process_exit_def emit_def logger_def)
    show "monitored (run_timer k (emit (Fired due k) s0))"
      using c by (simp add: s1_def ForceExit forceExit_def)
  next
    case (RestartNextTimer wids j)
    have "restart_position (prev m1) wids j" unfolding m1_def RestartNextTimer
      by (simp add: restart_position_def)
    from monitored_restartNext[OF a this]
    show "monitored (run_timer k (emit (Fired due k) s0))"
      unfolding RestartNextTimer by simp
  qed
qed

lemma monitored_step:
  assumes "monitored s"
  shows "monitored (primary_step s l)"
proof -
  obtain m where m: "monitor_state m s" using assms by (auto simp: monitored_def)
  show ?thesis
  proof (cases "exited s")
    case (Some c)
    then show ?thesis using assms by (cases l) simp_all
  next
    case None
    show ?thesis
    proof (cases l)
      case (Env t e)
      have "monitor_state m (s\<lparr>clock := t\<rparr>)" using m by (rule monitor_state_cong) simp_all
      from monitored_dispatch[OF this, of e t] show ?thesis using Env None by simp
    next
      case Tick
      show ?thesis
      proof (cases "next_timer (timers s)")
        case nt: None
        then show ?thesis using Tick None assms by simp
      next
        case (Some a)
        obtain due k where a: "a = (due, k)" by (cases a)
        have "(due, k) \<in> set (timers s)" using next_timer_min[of "timers s" due k] Some a by simp
        from monitored_run_timer[OF m this] show ?thesis using Tick None Some a by simp
      qed
    qed
  qed
qed

lemma monitored_run: "monitored s \<Longrightarrow> monitored (primary_run s ls)"
  unfolding primary_run_def
  by (induction ls arbitrary: s) (auto intro: monitored_step simp del: primary_step.simps)

lemma monitored_forks: "monitored s \<Longrightarrow> monitored (((\<lambda>s. snd (forkWorker s)) ^^ n) s)"
proof (induction n)
  case 0
  then show ?case by simp
next
  case (Suc n)
  then obtain m where "monitor_state m (((\<lambda>s. snd (forkWorker s)) ^^ n) s)"
    by (auto simp: monitored_def)
  from monitor_state_forkWorker[OF this] show ?case by (auto simp: monitored_def)
qed

lemma monitored_start: "monitored (primary_start t0 env n)"
proof -
  have "monitor_state monitor_init (primary_boot t0 env)"
    by (simp add: monitor_state_def monitor_rel_def primary_boot_def)
  from monitor_state_plain_log[OF this, of Info "''Primary process started''"]
  have "monitored (logger Info ''Primary process started'' (primary_boot t0 env))"
    unfolding monitored_def by auto
  then show ?thesis unfolding primary_start_def by (rule monitored_forks)
qed

lemma show_nat_2: "show_nat 2 = ''2''"
  by (simp add: show_nat.simps[of 2])

lemma rolling_run_trace:
  "trace (primary_run (primary_start 0 None 2) rolling_run)
   = [Log Info ''Primary process started'', Fork 1, Fork 2,
      Observed 30 (Signalled SIGUSR2),
      Log Info ''Received SIGUSR2, performing rolling restart'',
      Log Info ''Restarting worker 1'', Fork 3, Observed 40 (WorkerListening 3),
      Disconnect 1, Log Info ''Worker listening'',
      Observed 50 (WorkerExit 1 None None), Log Warn ''Worker died'',
      Log Info ''Restarting worker'', Fork 4,
      Fired 1050 (RestartNextTimer [1, 2] 1), Log Info ''Restarting worker 2'',
      Fork 5, Observed 1100 (WorkerListening 4), Log Info ''Worker listening'',
      Observed 1200 (WorkerListening 5), Disconnect 2,
      Log Info ''Worker listening'', Observed 1300 (WorkerExit 2 None None),
      Log Warn ''Worker died'', Log Info ''Restarting worker'', Fork 6,
      Fired 2300 (RestartNextTimer [1, 2] 2),
      Log Info ''Rolling restart complete'']"
  by (simp add: rolling_run_def primary_start_2 primary_defs restartNext.simps show_nat_Suc_0 show_nat_2)

lemma order_violations_rejected:
  "\<not> rolling_order_respected [Log Info ''Received SIGUSR2, performing rolling restart'',
          Log Info (rolling_log 1), Fork 3, Disconnect 1]
   \<and> \<not> rolling_order_respected [Log Info ''Received SIGUSR2, performing rolling restart'',
          Log Info (rolling_log 1), Fork 3, Observed 40 (WorkerListening 3), Disconnect 1,
          Fired 1040 (RestartNextTimer [1, 2] 1)]
   \<and> \<not> rolling_order_respected [Log Info ''Received SIGUSR2, performing rolling restart'',
          Log Info (rolling_log 1), Fork 3, Observed 40 (WorkerListening 3), Disconnect 1,
          Observed 50 (WorkerExit 1 None None), Log Info (rolling_log 2)]"
  by (simp add: rolling_order_respected_def monitor_init_def rolling_log_def is_rolling_log_def
      show_nat_Suc_0 show_nat_2)

section \<open>The claims\<close>

text \<open>
  C2 (as amended). While the primary is not shutting down, the exit handler keeps of the
  worker id's history exactly the instants less than 60000 ms old (an instant whose age
  is 60000 ms or more is dropped), forks one replacement iff fewer than
  \<open>maxRestartsPerMinute\<close> instants remain, and then stores the remaining instants
  followed by the current one; otherwise it forks nothing and leaves the stored history
  as it is. With the limit 5 and no history, six crash-exits of one worker id within ten
  seconds fork after each of the first five and not after the sixth.
\<close>

theorem governor_window_and_threshold:
  assumes "\<not> isShuttingDown s"
  shows "(if length (filter (\<lambda>time. clock s - time < 60000) (restarts_of s w)) < maxRestartsPerMinute s
          then ids (on_exit w code sig s) = ids s + 1
             \<and> workers (on_exit w code sig s) = workers s @ [ids s + 1]
             \<and> restarts_of (on_exit w code sig s) w
                 = filter (\<lambda>time. clock s - time < 60000) (restarts_of s w) @ [clock s]
          else ids (on_exit w code sig s) = ids s
             \<and> workers (on_exit w code sig s) = workers s
             \<and> workerRestarts (on_exit w code sig s) = workerRestarts s)
       \<and> (maxRestartsPerMinute s = 5 \<and> restarts_of s w = [] \<and> t1 \<le> t2 \<and> t2 \<le> t3 \<and> t3 \<le> t4
            \<and> t4 \<le> t5 \<and> t5 \<le> t6 \<and> t6 - t1 \<le> 10000
          \<longrightarrow> map (\<lambda>n. ids (crash_exits w (take n [t1, t2, t3, t4, t5, t6]) s)) [1, 2, 3, 4, 5, 6]
              = [ids s + 1, ids s + 2, ids s + 3, ids s + 4, ids s + 5, ids s + 5])"
  using on_exit_governor[OF assms, of w code sig] six_crashes[OF assms, of w t1 t2 t3 t4 t5 t6]
  by (simp add: recentRestarts_def)

theorem governor_window_and_threshold_witness:
  "\<not> isShuttingDown (primary_start 0 None 1)
   \<and> ids (on_exit 1 (Some 1) None (primary_start 0 None 1)) = 2
   \<and> restarts_of (on_exit 1 (Some 1) None (primary_start 0 None 1)) 1 = [0]
   \<and> map (\<lambda>n. ids (crash_exits 1 (take n [0, 2000, 4000, 6000, 8000, 10000]) (primary_start 0 None 1)))
        [1, 2, 3, 4, 5, 6] = [2, 3, 4, 5, 6, 6]"
proof -
  have s: "\<not> isShuttingDown (primary_start 0 None 1)" "ids (primary_start 0 None 1) = 1"
    "maxRestartsPerMinute (primary_start 0 None 1) = 5" "restarts_of (primary_start 0 None 1) 1 = []"
    "clock (primary_start 0 None 1) = 0"
    by (simp_all add: primary_start_def primary_boot_def restarts_of_def)
  show ?thesis
    using governor_window_and_threshold[OF s(1), of 1 "Some 1" None 0 2000 4000 6000 8000 10000] s
    by simp
qed

text \<open>
  At the boundary the code and the governor as worded part: the five restarts are exactly
  60000 ms old, so none of them is older than the window and the worded rule refuses the
  respawn, while the exit handler drops all five and forks.
\<close>

theorem governor_boundary_counterexample:
  "restarts_of boundary_state 1 = [0, 0, 0, 0, 0] \<and> clock boundary_state = 60000
   \<and> maxRestartsPerMinute boundary_state = 5 \<and> \<not> isShuttingDown boundary_state
   \<and> ids (on_exit 1 (Some 1) None boundary_state) = ids boundary_state + 1
   \<and> restarts_of (on_exit 1 (Some 1) None boundary_state) 1 = [60000]
   \<and> \<not> spec_allows 60000 (maxRestartsPerMinute boundary_state) (clock boundary_state)
         (restarts_of boundary_state 1)"
  by (simp add: boundary_state_def crash_exits_def primary_start_1 primary_defs spec_allows_def spec_prune_def)

text \<open>
  C8. Once \<open>isShuttingDown\<close> is true it stays true through every later event and
  timer, and a worker exit observed then forks nothing and leaves the restart history
  as it was: the exit handler only logs.
\<close>

theorem no_respawn_once_shutting_down:
  assumes "isShuttingDown s"
  shows "isShuttingDown (primary_run s ls)
       \<and> workerRestarts (primary_run s ls) = workerRestarts s
       \<and> on_exit w code sig (primary_run s ls) = logger Warn ''Worker died'' (primary_run s ls)
       \<and> ids (primary_step (primary_run s ls) (Env t (WorkerExit w code sig))) = ids (primary_run s ls)
       \<and> workerRestarts (primary_step (primary_run s ls) (Env t (WorkerExit w code sig))) = workerRestarts s
       \<and> trace (primary_step (primary_run s ls) (Env t (WorkerExit w code sig)))
           = trace (primary_run s ls) @
             (if exited (primary_run s ls) = None
              then [Observed t (WorkerExit w code sig), Log Warn ''Worker died''] else [])"
proof -
  let ?s1 = "primary_run s ls"
  have a: "isShuttingDown ?s1" "workerRestarts ?s1 = workerRestarts s"
    using primary_run_shutting_down[OF assms, of ls] by simp_all
  show ?thesis using a
    by (simp add: on_exit_shutting_down Let_def)
qed

theorem no_respawn_once_shutting_down_witness:
  "isShuttingDown (gracefulShutdown SIGTERM (primary_start 0 None 2))
   \<and> ids (primary_step (primary_run (gracefulShutdown SIGTERM (primary_start 0 None 2))
            [Env 100 (WorkerExit 1 (Some 0) None), Tick])
          (Env 600 (WorkerExit 2 (Some 0) None))) = 2
   \<and> workerRestarts (primary_step (primary_run (gracefulShutdown SIGTERM (primary_start 0 None 2))
            [Env 100 (WorkerExit 1 (Some 0) None), Tick])
          (Env 600 (WorkerExit 2 (Some 0) None))) = []"
proof -
  have h: "isShuttingDown (gracefulShutdown SIGTERM (primary_start 0 None 2))" by simp
  have i: "ids (primary_run (gracefulShutdown SIGTERM (primary_start 0 None 2))
            [Env 100 (WorkerExit 1 (Some 0) None), Tick]) = 2"
    by (simp add: primary_start_2 primary_defs)
  have r: "workerRestarts (gracefulShutdown SIGTERM (primary_start 0 None 2)) = []"
    by (simp add: primary_start_2)
  show ?thesis
    using no_respawn_once_shutting_down[OF h, of "[Env 100 (WorkerExit 1 (Some 0) None), Tick]"
        2 "Some 0" None 600] h i r
    by simp
qed

text \<open>
  C1. The claim asks that a replacement inherits the restart history of the worker it
  replaces. The exit handler files the history under \<^verbatim>\<open>worker.id\<close> of the worker that
  exited, and the replacement made by \<^verbatim>\<open>forkWorker()\<close> has a new id: when a slot
  crashes six times in six seconds, the history looked up at each exit is empty, each
  id ends with a history of one instant, and all six exits are followed by a fork.
\<close>

theorem replacement_history_starts_empty:
  "map (\<lambda>k. restarts_of (primary_run (primary_start 0 None 1) (take k slot_crashes)) (k + 1)) [0, 1, 2, 3, 4, 5]
     = [[], [], [], [], [], []]
   \<and> workerRestarts (primary_run (primary_start 0 None 1) slot_crashes)
     = [(1, [1000]), (2, [2000]), (3, [3000]), (4, [4000]), (5, [5000]), (6, [6000])]
   \<and> ids (primary_run (primary_start 0 None 1) slot_crashes) = 7
   \<and> workers (primary_run (primary_start 0 None 1) slot_crashes) = [7]"
  by (simp add: slot_crashes_def primary_start_1 primary_defs take_Cons')

text \<open>
  C10. The exit handler's result does not depend on the exit code or the signal. When the
  rolling restart has forked a new worker for a live old worker, the new worker reports
  listening and the old worker, disconnected by the rolling restart, then exits while
  the primary is not shutting down and the old worker's id is under the limit, the exit
  handler forks a further worker: two workers have been forked for the one replaced.
\<close>

theorem exit_handler_forks_after_rolling_disconnect:
  assumes "exited s = None" and "\<not> isShuttingDown s"
    and "i < length wids" and "wids ! i \<in> set (workers s)"
    and "ids s + 1 \<notin> set (workers s)"
    and "listeners_for (ids s + 1) (onListening s) = []"
    and "length (recentRestarts t' (restarts_of s (wids ! i))) < maxRestartsPerMinute s"
  shows "on_exit w code sig s = on_exit w code' sig' s
       \<and> ids (restartNext wids i s) = ids s + 1
       \<and> workers (restartNext wids i s) = workers s @ [ids s + 1]
       \<and> trace (primary_step (restartNext wids i s) (Env t (WorkerListening (ids s + 1))))
           = trace (restartNext wids i s)
             @ [Observed t (WorkerListening (ids s + 1)), Disconnect (wids ! i), Log Info ''Worker listening'']
       \<and> ids (primary_step (primary_step (restartNext wids i s) (Env t (WorkerListening (ids s + 1))))
                 (Env t' (WorkerExit (wids ! i) code sig))) = ids s + 2
       \<and> workers (primary_step (primary_step (restartNext wids i s) (Env t (WorkerListening (ids s + 1))))
                 (Env t' (WorkerExit (wids ! i) code sig)))
           = filter (\<lambda>w'. w' \<noteq> wids ! i) (workers s) @ [ids s + 1, ids s + 2]"
  using rolling_restart_double_fork[OF assms, of t code sig]
  by (simp add: on_exit_def)

theorem exit_handler_forks_after_rolling_disconnect_witness:
  "exited (primary_start 0 None 2) = None \<and> \<not> isShuttingDown (primary_start 0 None 2)
   \<and> 0 < length [1, 2 :: nat] \<and> [1, 2] ! 0 \<in> set (workers (primary_start 0 None 2))
   \<and> ids (primary_start 0 None 2) + 1 \<notin> set (workers (primary_start 0 None 2))
   \<and> listeners_for (ids (primary_start 0 None 2) + 1) (onListening (primary_start 0 None 2)) = []
   \<and> length (recentRestarts 200 (restarts_of (primary_start 0 None 2) ([1, 2] ! 0)))
       < maxRestartsPerMinute (primary_start 0 None 2)
   \<and> ids (primary_step (primary_step (restartNext [1, 2] 0 (primary_start 0 None 2)) (Env 100 (WorkerListening 3)))
            (Env 200 (WorkerExit 1 (Some 0) None))) = 4
   \<and> workers (primary_step (primary_step (restartNext [1, 2] 0 (primary_start 0 None 2)) (Env 100 (WorkerListening 3)))
            (Env 200 (WorkerExit 1 (Some 0) None))) = [2, 3, 4]"
proof -
  have h: "exited (primary_start 0 None 2) = None" "\<not> isShuttingDown (primary_start 0 None 2)"
    "0 < length [1, 2 :: nat]" "[1, 2] ! 0 \<in> set (workers (primary_start 0 None 2))"
    "ids (primary_start 0 None 2) + 1 \<notin> set (workers (primary_start 0 None 2))"
    "listeners_for (ids (primary_start 0 None 2) + 1) (onListening (primary_start 0 None 2)) = []"
    "length (recentRestarts 200 (restarts_of (primary_start 0 None 2) ([1, 2] ! 0)))
       < maxRestartsPerMinute (primary_start 0 None 2)"
    by (simp_all add: primary_start_2 restarts_of_def recentRestarts_def listeners_for_def)
  have v: "ids (primary_start 0 None 2) = 2" "workers (primary_start 0 None 2) = [1, 2]"
    by (simp_all add: primary_start_2)
  have a: "[1, 2 :: nat] ! 0 = 1" "(2 :: nat) + 1 = 3" "(2 :: nat) + 2 = 4"
    "filter (\<lambda>w'. w' \<noteq> 1) [1, 2 :: nat] @ [3, 4] = [2, 3, 4]"
    by simp_all
  note r = exit_handler_forks_after_rolling_disconnect[OF h, where w = 1 and code = "Some 0"
      and sig = None and code' = "Some 0" and sig' = None and t = 100, unfolded v a]
  from r have c1:
    "ids (primary_step (primary_step (restartNext [1, 2] 0 (primary_start 0 None 2)) (Env 100 (WorkerListening 3)))
            (Env 200 (WorkerExit 1 (Some 0) None))) = 4"
    by (elim conjE)
  from r have c2:
    "workers (primary_step (primary_step (restartNext [1, 2] 0 (primary_start 0 None 2)) (Env 100 (WorkerListening 3)))
            (Env 200 (WorkerExit 1 (Some 0) None))) = [2, 3, 4]"
    by (elim conjE)
  from h c1 c2 show ?thesis by (intro conjI)
qed

text \<open>
  C9. \<^verbatim>\<open>GET /health/ready\<close> answers 200 exactly when \<open>isReady\<close> is true and the checks
  run by this probe (memory, event loop, database) are all healthy, and 503 otherwise.
  When \<open>isReady\<close> is true the probe runs the checks, stores their conjunction in
  \<open>isHealthy\<close>, answers by it and returns the checks in the body; when \<open>isReady\<close> is
  false it answers 503 without running them.
\<close>

theorem ready_probe_status:
  "status_code (fst (get_ready m s))
     = (if health_isReady s \<and> (memoryHealthy m \<and> eventLoopHealthy m \<and> True) then 200 else 503)
   \<and> (if health_isReady s
       then check_details (fst (get_ready m s)) = Some (fst (runHealthChecks m s))
          \<and> health_isHealthy (snd (get_ready m s))
              = list_all (\<lambda>(name, status). status = ''healthy'') (fst (runHealthChecks m s))
          \<and> map fst (fst (runHealthChecks m s)) = [''memory'', ''eventLoop'', ''database'']
          \<and> map snd (fst (runHealthChecks m s))
              = [health_word (memoryHealthy m), health_word (eventLoopHealthy m), health_word True]
          \<and> status_code (fst (get_ready m s)) = (if health_isHealthy (snd (get_ready m s)) then 200 else 503)
       else fst (get_ready m s) = Response 503 ''not_ready'' None \<and> snd (get_ready m s) = s)"
  by (simp add: get_ready_def split_beta Let_def health_word_def)

theorem ready_probe_status_witness:
  "status_code (fst (get_ready \<lparr>heapUsed = 50, heapTotal = 100, eventLoopLag = 3\<rparr> (one_connection_worker 200 1000))) = 200
   \<and> status_code (fst (get_ready \<lparr>heapUsed = 95, heapTotal = 100, eventLoopLag = 3\<rparr> (one_connection_worker 200 1000))) = 503
   \<and> status_code (fst (get_ready \<lparr>heapUsed = 50, heapTotal = 100, eventLoopLag = 3\<rparr>
        (worker_boot 0 None None))) = 503"
  using ready_probe_status[of "\<lparr>heapUsed = 50, heapTotal = 100, eventLoopLag = 3\<rparr>" "one_connection_worker 200 1000"]
    ready_probe_status[of "\<lparr>heapUsed = 95, heapTotal = 100, eventLoopLag = 3\<rparr>" "one_connection_worker 200 1000"]
    ready_probe_status[of "\<lparr>heapUsed = 50, heapTotal = 100, eventLoopLag = 3\<rparr>" "worker_boot 0 None None"]
  by (simp add: one_connection_worker_eval worker_boot_def memoryHealthy_def eventLoopHealthy_def
      MEMORY_THRESHOLD_PERCENT_def EVENT_LOOP_LAG_THRESHOLD_MS_def)

text \<open>
  C4 (as amended). With drain delay 200 ms, shutdown timeout 1000 ms and one open
  connection that never closes, a termination signal at instant 0 takes the worker from
  RUNNING to DRAINING at 0 and from DRAINING to CLOSING at 200; the polls at 300, 400,
  ..., 1100 find the connection open, and the force-shutdown timer, armed at 200 for
  1000 ms, terminates the worker at 1200 with exit status 1.
\<close>

theorem stuck_connection_forced_exit:
  "phase (one_connection_worker 200 1000) = RUNNING
   \<and> wrun_ok (one_connection_worker 200 1000) (sigterm_then_ticks 11)
   \<and> timeline (one_connection_worker 200 1000) (sigterm_then_ticks 11)
     = [(0, DRAINING), (200, CLOSING), (300, CLOSING), (400, CLOSING), (500, CLOSING), (600, CLOSING),
        (700, CLOSING), (800, CLOSING), (900, CLOSING), (1000, CLOSING), (1100, CLOSING), (1200, TERMINATED)]
   \<and> wexited (worker_run (one_connection_worker 200 1000) (sigterm_then_ticks 11)) = Some 1"
  using stuck_connection_timeline stuck_connection_final
  by (simp add: phase_def one_connection_worker_eval)

theorem stuck_connection_forced_exit_witness:
  "last (timeline (one_connection_worker 200 1000) (sigterm_then_ticks 11)) = (1200, TERMINATED)"
  using stuck_connection_forced_exit by simp

text \<open>At 1000 ms after the signal the worker is still closing: the tenth step is the poll
  at 1000, and no step terminates the worker at that instant.\<close>

theorem forced_exit_at_timeout_counterexample:
  "timeline (one_connection_worker 200 1000) (sigterm_then_ticks 11) ! 9 = (1000, CLOSING)
   \<and> (1000, TERMINATED) \<notin> set (timeline (one_connection_worker 200 1000) (sigterm_then_ticks 11))"
  using stuck_connection_timeline by simp

text \<open>
  C3 (as amended). A shutdown request that arrives while a shutdown is in progress starts
  nothing: the worker's handler only logs a warning, the primary's handler returns
  without a log line. Two termination signals in succession give one shutdown sequence:
  one drain timer and one set of shutdown log lines in the worker, and in the primary a
  state equal to the one after the first signal. (A second rolling-restart request is
  not ignored, see the counterexample.)
\<close>

theorem duplicate_shutdown_is_ignored:
  assumes "server_isShuttingDown s" and "isShuttingDown p"
    and "\<not> server_isShuttingDown s0" and "wexited s0 = None"
  shows "server_gracefulShutdown sig False s = wlogger Warn ''Shutdown already in progress, ignoring signal'' s
       \<and> gracefulShutdown g p = p
       \<and> gracefulShutdown g' (gracefulShutdown g p0) = gracefulShutdown g p0
       \<and> wtimers (worker_run s0 [WEnv t Sigterm, WEnv t' Sigterm])
           = wtimers s0 @ [(t + timer_delay (drainDelay (DRAIN_DELAY_MS s0)), DrainDelay False)]
       \<and> wtrace (worker_run s0 [WEnv t Sigterm, WEnv t' Sigterm])
           = wtrace s0 @ [WObserved t Sigterm,
                          WLog Info ''Received SIGTERM, starting graceful shutdown...'',
                          WLog Warn ''Application marked as not ready'',
                          WLog Info (''Waiting '' @ show_int (drainDelay (DRAIN_DELAY_MS s0)) @ ''ms for load balancer drain...''),
                          WObserved t' Sigterm,
                          WLog Warn ''Shutdown already in progress, ignoring signal'']"
proof -
  have b: "isShuttingDown (gracefulShutdown g p0)" by simp
  show ?thesis
    using server_gracefulShutdown_again[OF assms(1), of sig] gracefulShutdown_again[OF assms(2), of g]
      gracefulShutdown_again[OF b, of g'] sigterm_twice[OF assms(3,4), of t t']
    by (intro conjI) simp_all
qed

theorem duplicate_shutdown_is_ignored_witness:
  "server_isShuttingDown (worker_step (one_connection_worker 200 1000) (WEnv 0 Sigterm))
   \<and> isShuttingDown (gracefulShutdown SIGTERM (primary_start 0 None 2))
   \<and> \<not> server_isShuttingDown (one_connection_worker 200 1000)
   \<and> wexited (one_connection_worker 200 1000) = None
   \<and> gracefulShutdown SIGINT (gracefulShutdown SIGTERM (primary_start 0 None 2))
       = gracefulShutdown SIGTERM (primary_start 0 None 2)
   \<and> wtimers (worker_run (one_connection_worker 200 1000) [WEnv 0 Sigterm, WEnv 50 Sigterm])
       = [(200, DrainDelay False)]"
proof -
  have h: "server_isShuttingDown (worker_step (one_connection_worker 200 1000) (WEnv 0 Sigterm))"
    "isShuttingDown (gracefulShutdown SIGTERM (primary_start 0 None 2))"
    "\<not> server_isShuttingDown (one_connection_worker 200 1000)"
    "wexited (one_connection_worker 200 1000) = None"
    by (simp_all add: one_connection_worker_eval server_gracefulShutdown_def Let_def)
  note r = duplicate_shutdown_is_ignored[OF h, where g = SIGTERM and g' = SIGINT and ?p0.0 = "primary_start 0 None 2"
      and t = 0 and t' = 50 and sig = "''SIGTERM''"]
  have c1: "gracefulShutdown SIGINT (gracefulShutdown SIGTERM (primary_start 0 None 2))
       = gracefulShutdown SIGTERM (primary_start 0 None 2)"
    using r by (elim conjE)
  have "wtimers (worker_run (one_connection_worker 200 1000) [WEnv 0 Sigterm, WEnv 50 Sigterm])
       = wtimers (one_connection_worker 200 1000)
         @ [(0 + timer_delay (drainDelay (DRAIN_DELAY_MS (one_connection_worker 200 1000))), DrainDelay False)]"
    using r by (elim conjE)
  then have c2: "wtimers (worker_run (one_connection_worker 200 1000) [WEnv 0 Sigterm, WEnv 50 Sigterm])
       = [(200, DrainDelay False)]"
    by (simp add: one_connection_worker_eval drainDelay_def timer_delay_def)
  from h c1 c2 show ?thesis by (intro conjI)
qed

text \<open>
  A second rolling-restart request while the first is waiting for its new worker: it is
  logged at info level and forks another replacement for the same old worker.
\<close>

theorem second_rolling_restart_counterexample:
  "trace (primary_run (primary_start 0 None 1) [Env 10 (Signalled SIGUSR2), Env 20 (Signalled SIGUSR2)])
     = [Log Info ''Primary process started'', Fork 1,
        Observed 10 (Signalled SIGUSR2),
        Log Info ''Received SIGUSR2, performing rolling restart'',
        Log Info ''Restarting worker 1'', Fork 2,
        Observed 20 (Signalled SIGUSR2),
        Log Info ''Received SIGUSR2, performing rolling restart'',
        Log Info ''Restarting worker 1'', Fork 3]
   \<and> onListening (primary_run (primary_start 0 None 1) [Env 10 (Signalled SIGUSR2), Env 20 (Signalled SIGUSR2)])
     = [(2, [1], 0, 1), (3, [1, 2], 0, 1)]"
  by (simp add: primary_start_1 primary_defs restartNext.simps show_nat_Suc_0)

text \<open>
  C7 (as amended). From a shutdown request (a termination signal or the primary's shutdown
  message) to a running worker at instant \<open>t0\<close>, in every run that respects the timers:
  \<^verbatim>\<open>markNotReady()\<close> has taken effect when the handler returns, so the readiness probe
  answers 503 from then on (as long as the listen callback does not run afterwards); the
  worker half-closes or destroys a connection only when the drain delay is over, which is
  later than \<open>t0\<close>; the process has exited by the instant \<open>F\<close>, the drain delay plus
  the shutdown timeout after \<open>t0\<close> (each as the timer takes it), which closes whatever
  connection is left; the exit status is 0 or 1, it is 0 only when no connection is
  tracked, a poll that finds the tracked set empty exits with 0, and the force-shutdown
  timer exits with 1. From every point of such a run the timers alone, firing in turn,
  bring the process to its exit.
\<close>

theorem graceful_shutdown_order_and_bound:
  assumes "\<not> server_isShuttingDown s0" and "wexited s0 = None" and "wtimers s0 = []"
    and "e = Sigterm \<or> e = Sigint \<or> e = ShutdownMessage"
    and "wrun_ok (worker_step s0 (WEnv t0 e)) ls"
  shows "let D = t0 + timer_delay (drainDelay (DRAIN_DELAY_MS s0));
             F = D + timer_delay (shutdownTimeout (WORKER_SHUTDOWN_TIMEOUT_MS s0));
             s1 = worker_step s0 (WEnv t0 e);
             s = worker_run s1 ls
         in \<not> health_isReady s1 \<and> status_code (fst (get_ready m s1)) = 503
          \<and> (\<not> list_ex is_listening_label ls \<longrightarrow> status_code (fst (get_ready m s)) = 503)
          \<and> (\<exists>rest. wtrace s = wtrace s0 @ [WObserved t0 e]
                @ (if e = ShutdownMessage then [WLog Info ''Worker received shutdown signal''] else [])
                @ [WLog Info (''Received '' @ shutdown_request_name e @ '', starting graceful shutdown...''),
                   WLog Warn ''Application marked as not ready'',
                   WLog Info (''Waiting '' @ show_int (drainDelay (DRAIN_DELAY_MS s0)) @ ''ms for load balancer drain...'')]
                @ rest)
          \<and> t0 < D
          \<and> (forced_count (wtrace s) \<noteq> forced_count (wtrace s0) \<longrightarrow> D \<le> wclock s)
          \<and> wclock s \<le> F
          \<and> (wexited s = None \<or> wexited s = Some 0 \<or> wexited s = Some 1)
          \<and> (wexited s = Some 0 \<longrightarrow> server_connections s = [])
          \<and> (wexited s = None \<longrightarrow>
               (\<exists>due k. next_timer (wtimers s) = Some (due, k) \<and> due \<le> F
                  \<and> (k = CheckConnections \<longrightarrow>
                        wexited (worker_step s WTick) = (if server_connections s = [] then Some 0 else None))
                  \<and> (k = ForceShutdownTimer \<longrightarrow> wexited (worker_step s WTick) = Some 1)))
          \<and> (\<exists>c. wexited (worker_run s (replicate c WTick)) \<noteq> None)"
proof -
  define D where "D = t0 + timer_delay (drainDelay (DRAIN_DELAY_MS s0))"
  define F where "F = D + timer_delay (shutdownTimeout (WORKER_SHUTDOWN_TIMEOUT_MS s0))"
  define s1 where "s1 = worker_step s0 (WEnv t0 e)"
  define s where "s = worker_run s1 ls"
  note b = shutdown_bound[OF assms, folded D_def, folded F_def, folded s1_def, folded s_def]
  note r = shutdown_not_ready(1)[OF assms(1,2,4), where ?t0.0 = t0, folded s1_def]
    shutdown_not_ready(2)[OF assms(1,2,4), where ?t0.0 = t0 and ls = ls, folded s1_def, folded s_def]
    shutdown_not_ready(3)[OF assms(1,2,4), where ?t0.0 = t0, folded s1_def]
  obtain rest where rest: "wtrace s = wtrace s1 @ rest"
    unfolding s_def using wtrace_run_grows by blast
  have a1: "\<not> health_isReady s1" "status_code (fst (get_ready m s1)) = 503"
    using r(1) by (simp_all add: get_ready_status)
  have a2: "\<not> list_ex is_listening_label ls \<longrightarrow> status_code (fst (get_ready m s)) = 503"
    using r(2) by (simp add: get_ready_status)
  have a3: "\<exists>rest. wtrace s = wtrace s0 @ [WObserved t0 e]
                @ (if e = ShutdownMessage then [WLog Info ''Worker received shutdown signal''] else [])
                @ [WLog Info (''Received '' @ shutdown_request_name e @ '', starting graceful shutdown...''),
                   WLog Warn ''Application marked as not ready'',
                   WLog Info (''Waiting '' @ show_int (drainDelay (DRAIN_DELAY_MS s0)) @ ''ms for load balancer drain...'')]
                @ rest"
    unfolding rest r(3) by simp
  have a4: "wexited s = None \<longrightarrow>
               (\<exists>due k. next_timer (wtimers s) = Some (due, k) \<and> due \<le> F
                  \<and> (k = CheckConnections \<longrightarrow>
                        wexited (worker_step s WTick) = (if server_connections s = [] then Some 0 else None))
                  \<and> (k = ForceShutdownTimer \<longrightarrow> wexited (worker_step s WTick) = Some 1))"
  proof
    assume n: "wexited s = None"
    with b(6) obtain due k where nt: "next_timer (wtimers s) = Some (due, k)" "due \<le> F" by blast
    from poll_step[OF n nt(1)] nt
    show "\<exists>due k. next_timer (wtimers s) = Some (due, k) \<and> due \<le> F
                  \<and> (k = CheckConnections \<longrightarrow>
                        wexited (worker_step s WTick) = (if server_connections s = [] then Some 0 else None))
                  \<and> (k = ForceShutdownTimer \<longrightarrow> wexited (worker_step s WTick) = Some 1)"
      by blast
  qed
  have a5: "\<exists>c. wexited (worker_run s (replicate c WTick)) \<noteq> None"
    unfolding s_def s1_def by (rule shutdown_reaches_exit[OF assms])
  show ?thesis
    unfolding Let_def D_def[symmetric] F_def[symmetric] s1_def[symmetric] s_def[symmetric]
    using a1 a2 a3 a4 a5 b(1-5) by (intro conjI)
qed

theorem graceful_shutdown_order_and_bound_witness:
  "\<not> server_isShuttingDown (one_connection_worker 200 250)
   \<and> wexited (one_connection_worker 200 250) = None
   \<and> wtimers (one_connection_worker 200 250) = []
   \<and> wrun_ok (worker_step (one_connection_worker 200 250) (WEnv 0 Sigterm)) (tl late_close_run)
   \<and> wclock (worker_run (worker_step (one_connection_worker 200 250) (WEnv 0 Sigterm)) (tl late_close_run)) \<le> 450"
proof -
  have h: "\<not> server_isShuttingDown (one_connection_worker 200 250)"
    "wexited (one_connection_worker 200 250) = None"
    "wtimers (one_connection_worker 200 250) = []"
    "Sigterm = Sigterm \<or> Sigterm = Sigint \<or> Sigterm = ShutdownMessage"
    by (simp_all add: one_connection_worker_eval)
  have ok: "wrun_ok (worker_step (one_connection_worker 200 250) (WEnv 0 Sigterm)) (tl late_close_run)"
    using late_close_eval by (simp add: late_close_run_def)
  have F: "(0 :: int) + timer_delay (drainDelay (DRAIN_DELAY_MS (one_connection_worker 200 250)))
             + timer_delay (shutdownTimeout (WORKER_SHUTDOWN_TIMEOUT_MS (one_connection_worker 200 250))) = 450"
    by (simp add: one_connection_worker_eval drainDelay_def shutdownTimeout_def timer_delay_def)
  note r = graceful_shutdown_order_and_bound[OF h ok, where m = "\<lparr>heapUsed = 1, heapTotal = 2, eventLoopLag = 0\<rparr>",
      unfolded Let_def F]
  have c: "wclock (worker_run (worker_step (one_connection_worker 200 250) (WEnv 0 Sigterm)) (tl late_close_run)) \<le> 450"
    using r by (elim conjE)
  from h(1-3) ok c show ?thesis by (intro conjI)
qed

text \<open>
  With drain delay 200 ms and shutdown timeout 250 ms, the only connection closes at 420:
  every connection has closed before the force-shutdown timer fires at 450, and the
  worker exits with status 1.
\<close>

theorem exit_status_after_late_close_counterexample:
  "wrun_ok (one_connection_worker 200 250) late_close_run
   \<and> wexited (worker_run (one_connection_worker 200 250) (take 5 late_close_run)) = None
   \<and> server_connections (worker_run (one_connection_worker 200 250) (take 5 late_close_run)) = []
   \<and> wclock (worker_run (one_connection_worker 200 250) (take 5 late_close_run)) = 420
   \<and> wtimers (worker_run (one_connection_worker 200 250) (take 5 late_close_run))
       = [(450, ForceShutdownTimer), (5200, DestroyTimer 1), (500, CheckConnections)]
   \<and> wexited (worker_run (one_connection_worker 200 250) late_close_run) = Some 1
   \<and> wclock (worker_run (one_connection_worker 200 250) late_close_run) = 450"
  by (rule late_close_eval)



text \<open>
  C5. In every run of a started primary, whatever the events and their order, the
  observations respect the order of a rolling restart: the line announcing the restart of
  a worker (followed by the fork of its replacement) comes right after the request or
  right after a pause has ended, and then for a worker at or after the pause's index in
  the list; an old worker is disconnected only after the replacement forked for it has
  been observed listening; and the pause before index \<open>j\<close> ends only after the worker at
  index \<open>j - 1\<close> has been disconnected and has then exited.
\<close>

theorem rolling_restart_order:
  "rolling_order_respected (trace (primary_run (primary_start t0 env n) ls))"
  using monitored_run[OF monitored_start, of t0 env n ls]
  by (auto simp: monitored_def monitor_state_def rolling_order_respected_def)

theorem rolling_restart_order_witness:
  "rolling_order_respected
     [Log Info ''Primary process started'', Fork 1, Fork 2,
      Observed 30 (Signalled SIGUSR2),
      Log Info ''Received SIGUSR2, performing rolling restart'',
      Log Info ''Restarting worker 1'', Fork 3, Observed 40 (WorkerListening 3),
      Disconnect 1, Log Info ''Worker listening'',
      Observed 50 (WorkerExit 1 None None), Log Warn ''Worker died'',
      Log Info ''Restarting worker'', Fork 4,
      Fired 1050 (RestartNextTimer [1, 2] 1), Log Info ''Restarting worker 2'',
      Fork 5, Observed 1100 (WorkerListening 4), Log Info ''Worker listening'',
      Observed 1200 (WorkerListening 5), Disconnect 2,
      Log Info ''Worker listening'', Observed 1300 (WorkerExit 2 None None),
      Log Warn ''Worker died'', Log Info ''Restarting worker'', Fork 6,
      Fired 2300 (RestartNextTimer [1, 2] 2),
      Log Info ''Rolling restart complete'']
   \<and> \<not> rolling_order_respected [Log Info ''Received SIGUSR2, performing rolling restart'',
          Log Info (rolling_log 1), Fork 3, Disconnect 1]
   \<and> \<not> rolling_order_respected [Log Info ''Received SIGUSR2, performing rolling restart'',
          Log Info (rolling_log 1), Fork 3, Observed 40 (WorkerListening 3), Disconnect 1,
          Fired 1040 (RestartNextTimer [1, 2] 1)]
   \<and> \<not> rolling_order_respected [Log Info ''Received SIGUSR2, performing rolling restart'',
          Log Info (rolling_log 1), Fork 3, Observed 40 (WorkerListening 3), Disconnect 1,
          Observed 50 (WorkerExit 1 None None), Log Info (rolling_log 2)]"
  using rolling_restart_order[of 0 None 2 rolling_run] order_violations_rejected
  unfolding rolling_run_trace by (intro conjI) blast+

end
